theory Spec2Isabelle
  imports Main "HOL-Library.Word"
begin

unbundle bit_operations_syntax

section \<open>Machine model\<close>

text \<open>
  The firmware runs in 32-bit flat mode on x86: a pointer is a 32-bit word (the source
  casts freely between \<open>void *\<close> and \<open>u32\<close>), pointer arithmetic wraps at \<open>2^32\<close>, the
  null pointer is \<open>0\<close>, and multi-byte fields are little-endian. Physical memory is a
  total map from addresses to bytes.
\<close>

type_synonym u8 = "8 word"
type_synonym u16 = "16 word"
type_synonym u32 = "32 word"
type_synonym u64 = "64 word"
type_synonym mem = "u32 \<Rightarrow> u8"

definition rd16 :: "mem \<Rightarrow> u32 \<Rightarrow> u16" where
  "rd16 m a = ucast (m a) OR push_bit 8 (ucast (m (a + 1)))"

definition rd32 :: "mem \<Rightarrow> u32 \<Rightarrow> u32" where
  "rd32 m a = ucast (m a) OR push_bit 8 (ucast (m (a + 1)))
                OR push_bit 16 (ucast (m (a + 2))) OR push_bit 24 (ucast (m (a + 3)))"

definition rd64 :: "mem \<Rightarrow> u32 \<Rightarrow> u64" where
  "rd64 m a = ucast (rd32 m a) OR push_bit 32 (ucast (rd32 m (a + 4)))"

definition wr16 :: "mem \<Rightarrow> u32 \<Rightarrow> u16 \<Rightarrow> mem" where
  "wr16 m a v = (m(a := ucast v))(a + 1 := ucast (drop_bit 8 v))"

definition wr32 :: "mem \<Rightarrow> u32 \<Rightarrow> u32 \<Rightarrow> mem" where
  "wr32 m a v = (((m(a := ucast v))(a + 1 := ucast (drop_bit 8 v)))
                   (a + 2 := ucast (drop_bit 16 v)))(a + 3 := ucast (drop_bit 24 v))"

text \<open>
  Modelled from the spec: \<open>memcpy\<close> and \<open>memset\<close> (string.h) and \<open>checksum\<close> (util.h) are
  not part of the source file. \<open>memcpy\<close> copies byte by byte from the lowest address
  upwards; \<open>checksum\<close> is the sum of the bytes modulo 256 (spec section 4.1).
\<close>

fun memcpy :: "mem \<Rightarrow> u32 \<Rightarrow> u32 \<Rightarrow> nat \<Rightarrow> mem" where
  "memcpy m d s 0 = m"
| "memcpy m d s (Suc n) = memcpy (m(d := m s)) (d + 1) (s + 1) n"

fun write_bytes :: "mem \<Rightarrow> u32 \<Rightarrow> u8 list \<Rightarrow> mem" where
  "write_bytes m a [] = m"
| "write_bytes m a (x # xs) = write_bytes (m(a := x)) (a + 1) xs"

fun read_bytes :: "mem \<Rightarrow> u32 \<Rightarrow> nat \<Rightarrow> u8 list" where
  "read_bytes m a 0 = []"
| "read_bytes m a (Suc n) = m a # read_bytes m (a + 1) n"

fun sum_bytes :: "mem \<Rightarrow> u32 \<Rightarrow> nat \<Rightarrow> u8" where
  "sum_bytes m p 0 = 0"
| "sum_bytes m p (Suc n) = m p + sum_bytes m (p + 1) n"

definition checksum :: "mem \<Rightarrow> u32 \<Rightarrow> u32 \<Rightarrow> u8" where
  "checksum m p len = sum_bytes m p (unat len)"

text \<open>A C string: the bytes up to the first NUL; \<open>strlen\<close> counts them.\<close>

definition cstr :: "string \<Rightarrow> u8 list" where
  "cstr s = takeWhile (\<lambda>b. b \<noteq> 0) (map (\<lambda>c. of_nat (of_char c)) s)"

definition strlen :: "string \<Rightarrow> nat" where
  "strlen s = length (cstr s)"

text \<open>
  A memory image for examples: the bytes \<open>xs\<close> (fewer than \<open>2^32\<close>) at \<open>base\<close>, zero
  elsewhere.
\<close>

definition load :: "u32 \<Rightarrow> u8 list \<Rightarrow> mem" where
  "load base xs = (\<lambda>a. if a - base < of_nat (length xs) then xs ! unat (a - base) else 0)"

section \<open>Collaborators and global state\<close>

text \<open>
  Modelled from the spec: the memory pools (malloc.h) are external collaborators with the
  interface \<open>allocate(size) -> Option<Address>\<close> (spec section 6). Every routine takes the
  pools as a parameter; a pool maps its own state \<open>'h\<close> and a size to the address of the
  block (\<open>0\<close> when exhausted) and its next state.
\<close>

record 'h pools =
  malloc_fseg :: "'h \<Rightarrow> u32 \<Rightarrow> u32 \<times> 'h"
  malloc_high :: "'h \<Rightarrow> u32 \<Rightarrow> u32 \<times> 'h"
  malloc_tmphigh :: "'h \<Rightarrow> u32 \<Rightarrow> u32 \<times> 'h"
  pool_free :: "'h \<Rightarrow> u32 \<Rightarrow> 'h"

record acpi_20_generic_address =
  address_space_id :: u8
  register_bit_width :: u8
  register_bit_offset :: u8
  ga_reserved :: u8
  ga_address :: u64

text \<open>The file's global variables, the physical memory and the pools' state.\<close>

record 'h bios =
  memory :: mem
  heap :: 'h
  PirAddr :: u32
  RsdpAddr :: u32
  SMBios21Addr :: u32
  SMBios30Addr :: u32
  acpi_reset_reg :: acpi_20_generic_address
  acpi_reset_val :: u8

text \<open>
  Modelled from the spec: the signature constants (spec section 6, as little-endian
  integers) and the record layouts of the public PIR, MP, ACPI and SMBIOS specifications,
  which the headers under std/ declare as packed structs and which are not part of the
  source file. Field offsets are written as numerals where a field is accessed.
\<close>

definition PIR_SIGNATURE :: u32 where "PIR_SIGNATURE = 0x52495024"
definition MPTABLE_SIGNATURE :: u32 where "MPTABLE_SIGNATURE = 0x5f504d5f"
definition RSDP_SIGNATURE :: u64 where "RSDP_SIGNATURE = 0x2052545020445352"
definition RSDT_SIGNATURE :: u32 where "RSDT_SIGNATURE = 0x54445352"
definition XSDT_SIGNATURE :: u32 where "XSDT_SIGNATURE = 0x54445358"
definition SMBIOS_21_SIGNATURE :: u32 where "SMBIOS_21_SIGNATURE = 0x5f4d535f"

section \<open>PIR, MP table and RSDP registration\<close>

definition copy_fseg_table :: "'h pools \<Rightarrow> 'h bios \<Rightarrow> u32 \<Rightarrow> u32 \<Rightarrow> u32 \<times> 'h bios" where
  "copy_fseg_table A s pos sz =
     (case malloc_fseg A (heap s) sz of (newpos, h) \<Rightarrow>
        if newpos = 0 then (0, s\<lparr>heap := h\<rparr>)
        else (newpos, s\<lparr>memory := memcpy (memory s) newpos pos (unat sz), heap := h\<rparr>))"

text \<open>\<open>struct pir_header\<close>: signature at 0, size (16 bit) at 6, 32 bytes in all.\<close>

definition copy_pir :: "'h pools \<Rightarrow> 'h bios \<Rightarrow> u32 \<Rightarrow> 'h bios" where
  "copy_pir A s pos =
     (let m = memory s; psize = rd16 m (pos + 6) in
      if rd32 m pos \<noteq> PIR_SIGNATURE then s
      else if PirAddr s \<noteq> 0 then s
      else if psize < 32 then s
      else if checksum m pos (ucast psize) \<noteq> 0 then s
      else (case copy_fseg_table A s pos (ucast psize) of
              (newpos, s') \<Rightarrow> s'\<lparr>PirAddr := newpos\<rparr>))"

text \<open>
  \<open>struct mptable_floating_s\<close> (16 bytes): signature at 0, physaddr at 4, length (in
  16-byte units) at 8, checksum at 10. \<open>struct mptable_config_s\<close>: length (16 bit) at 4.
  \<open>BUILD_MAX_MPTABLE_FSEG\<close> (config.h) is the parameter \<open>max_fseg\<close>.
\<close>

definition copy_mptable :: "'h pools \<Rightarrow> u32 \<Rightarrow> 'h bios \<Rightarrow> u32 \<Rightarrow> 'h bios" where
  "copy_mptable A max_fseg s pos =
     (let m = memory s in
      if rd32 m pos \<noteq> MPTABLE_SIGNATURE then s
      else if rd32 m (pos + 4) = 0 then s
      else if checksum m pos 16 \<noteq> 0 then s
      else
        let len = (ucast (m (pos + 8)) :: u32) * 16;
            mpclength = rd16 m (rd32 m (pos + 4) + 4)
        in
          if len + ucast mpclength > max_fseg then s
          else (case malloc_fseg A (heap s) (len + ucast mpclength) of (newpos, h) \<Rightarrow>
            if newpos = 0 then s\<lparr>heap := h\<rparr>
            else
              let m1 = memcpy m newpos pos (unat len);
                  m2 = wr32 m1 (newpos + 4) (newpos + len);
                  m3 = m2(newpos + 10 := m2 (newpos + 10) - checksum m2 newpos 16);
                  m4 = memcpy m3 (newpos + len) (rd32 m3 (pos + 4)) (unat mpclength)
              in s\<lparr>memory := m4, heap := h\<rparr>))"

text \<open>
  \<open>struct rsdp_descriptor\<close>: signature (64 bit) at 0, revision at 15,
  rsdt_physical_address at 16, length at 20, xsdt_physical_address (64 bit) at 24.
  The function returns a C \<open>int\<close>: the unsigned length is converted to a signed 32-bit
  value on return.
\<close>

definition get_acpi_rsdp_length :: "mem \<Rightarrow> u32 \<Rightarrow> u32 \<Rightarrow> int" where
  "get_acpi_rsdp_length m pos sz =
     (if rd64 m pos \<noteq> RSDP_SIGNATURE then - 1
      else if (20 :: u32) > sz then - 1
      else if checksum m pos 20 \<noteq> 0 then - 1
      else if m (pos + 15) > 1 then
        (let len = rd32 m (pos + 20) in
         if len > sz then - 1
         else if checksum m pos len \<noteq> 0 then - 1
         else sint len)
      else sint (20 :: u32))"

definition copy_acpi_rsdp :: "'h pools \<Rightarrow> 'h bios \<Rightarrow> u32 \<Rightarrow> 'h bios" where
  "copy_acpi_rsdp A s pos =
     (if RsdpAddr s \<noteq> 0 then s
      else
        let len = get_acpi_rsdp_length (memory s) pos (- 1) in
        if len < 0 then s
        else (case copy_fseg_table A s pos (word_of_int len) of
                (newpos, s') \<Rightarrow> s'\<lparr>RsdpAddr := newpos\<rparr>))"

section \<open>ACPI table lookup and reset\<close>

text \<open>
  The two entry loops of \<open>find_acpi_table\<close>. An ACPI table header is 36 bytes: signature
  at 0, length at 4; the entry array follows it, 8 bytes an entry in the XSDT and 4 in
  the RSDT. The loops compare the address of entry \<open>i\<close> with \<open>table + length\<close> in 32-bit
  pointer arithmetic, so they need not terminate when that sum reaches the top of the
  address space: not returning is the value \<open>None\<close>. The result of a loop is the table
  found, or \<open>0\<close> when the loop ran off the end of the array.
\<close>

partial_function (option) xsdt_search :: "mem \<Rightarrow> u32 \<Rightarrow> u32 \<Rightarrow> u32 \<Rightarrow> u32 \<Rightarrow> u32 option" where
  "xsdt_search m sg xsdt e i =
     (if xsdt + 36 + 8 * i < e then
        (if rd64 m (xsdt + 36 + 8 * i) \<ge> 0x100000000 then xsdt_search m sg xsdt e (i + 1)
         else if (ucast (rd64 m (xsdt + 36 + 8 * i)) :: u32) = 0
                 \<or> rd32 m (ucast (rd64 m (xsdt + 36 + 8 * i))) \<noteq> sg
           then xsdt_search m sg xsdt e (i + 1)
         else Some (ucast (rd64 m (xsdt + 36 + 8 * i))))
      else Some 0)"

partial_function (option) rsdt_search :: "mem \<Rightarrow> u32 \<Rightarrow> u32 \<Rightarrow> u32 \<Rightarrow> u32 \<Rightarrow> u32 option" where
  "rsdt_search m sg rsdt e i =
     (if rsdt + 36 + 4 * i < e then
        (if rd32 m (rsdt + 36 + 4 * i) = 0 \<or> rd32 m (rd32 m (rsdt + 36 + 4 * i)) \<noteq> sg
           then rsdt_search m sg rsdt e (i + 1)
         else Some (rd32 m (rsdt + 36 + 4 * i)))
      else Some 0)"

definition find_acpi_table :: "'h bios \<Rightarrow> u32 \<Rightarrow> u32 option" where
  "find_acpi_table s sg =
     (let m = memory s in
      if RsdpAddr s = 0 \<or> rd64 m (RsdpAddr s) \<noteq> RSDP_SIGNATURE then Some 0
      else
        let rsdt = rd32 m (RsdpAddr s + 16);
            xsdt = (if rd64 m (RsdpAddr s + 24) \<ge> 0x100000000 then 0
                    else ucast (rd64 m (RsdpAddr s + 24)) :: u32)
        in
          (case (if xsdt \<noteq> 0 \<and> rd32 m xsdt = XSDT_SIGNATURE
                 then xsdt_search m sg xsdt (xsdt + rd32 m (xsdt + 4)) 0 else Some 0) of
             None \<Rightarrow> None
           | Some tbl \<Rightarrow>
               if tbl \<noteq> 0 then Some tbl
               else if rsdt \<noteq> 0 \<and> rd32 m rsdt = RSDT_SIGNATURE
                 then rsdt_search m sg rsdt (rsdt + rd32 m (rsdt + 4)) 0
               else Some 0))"

text \<open>
  Modelled from the spec: the write primitives \<open>writeb\<close>, \<open>outb\<close> and
  \<open>pci_config_writeb\<close> (x86.h, hw/pci.h) are collaborators; a call is recorded as an
  event. \<open>pci_to_bdf(bus, dev, fn)\<close> is \<open>(bus << 8) | (dev << 3) | fn\<close>.
\<close>

datatype io_write =
  Writeb u32 u8
| Outb u16 u8
| Pci_config_writeb u16 u32 u8

definition pci_to_bdf :: "u64 \<Rightarrow> u64 \<Rightarrow> u64 \<Rightarrow> u16" where
  "pci_to_bdf bus dev fn = ucast (push_bit 8 bus OR push_bit 3 dev OR fn)"

definition acpi_ga_to_bdf :: "u64 \<Rightarrow> u16" where
  "acpi_ga_to_bdf addr = pci_to_bdf 0 (drop_bit 32 addr AND 0xffff) (drop_bit 16 addr AND 0xffff)"

definition acpi_reboot :: "'h bios \<Rightarrow> io_write list" where
  "acpi_reboot s =
     (if register_bit_width (acpi_reset_reg s) \<noteq> 8 then []
      else
        let addr = ga_address (acpi_reset_reg s); v = acpi_reset_val s in
        if address_space_id (acpi_reset_reg s) = 0 then [Writeb (ucast addr) v]
        else if address_space_id (acpi_reset_reg s) = 1 then [Outb (ucast addr) v]
        else if address_space_id (acpi_reset_reg s) = 2
          then [Pci_config_writeb (acpi_ga_to_bdf addr) (ucast (addr AND 0xffff)) v]
        else [])"

text \<open>
  \<open>struct acpi_20_generic_address\<close> (12 bytes): address_space_id at 0,
  register_bit_width at 1, register_bit_offset at 2, reserved at 3, address (64 bit) at 4.
\<close>

definition read_generic_address :: "mem \<Rightarrow> u32 \<Rightarrow> acpi_20_generic_address" where
  "read_generic_address m reg =
     \<lparr>address_space_id = m reg, register_bit_width = m (reg + 1),
      register_bit_offset = m (reg + 2), ga_reserved = m (reg + 3),
      ga_address = rd64 m (reg + 4)\<rparr>"

definition acpi_set_reset_reg :: "'h bios \<Rightarrow> u32 \<Rightarrow> u8 \<Rightarrow> 'h bios" where
  "acpi_set_reset_reg s reg v =
     (if reg = 0 \<or> address_space_id (read_generic_address (memory s) reg) > 2
         \<or> register_bit_width (read_generic_address (memory s) reg) \<noteq> 8
         \<or> register_bit_offset (read_generic_address (memory s) reg) \<noteq> 0
      then s
      else s\<lparr>acpi_reset_reg := read_generic_address (memory s) reg, acpi_reset_val := v\<rparr>)"

section \<open>SMBIOS iterator\<close>

text \<open>
  \<open>struct smbios_structure_header\<close> (4 bytes): type at 0, length at 1, handle at 2.
  The functions of the iterator return, beside their result, the addresses of the bytes
  they read, in the order of the reads.

  The terminator scan, \<open>while (prev < end && (prev[-1] != 0 || prev[-2] != 0)) prev++\<close>:
\<close>

function smbios_scan :: "mem \<Rightarrow> u32 \<Rightarrow> u32 \<Rightarrow> u32 \<times> u32 list" where
  "smbios_scan m e p =
     (if p < e then
        (if m (p - 1) \<noteq> 0 then
           (case smbios_scan m e (p + 1) of (q, rs) \<Rightarrow> (q, (p - 1) # rs))
         else if m (p - 2) \<noteq> 0 then
           (case smbios_scan m e (p + 1) of (q, rs) \<Rightarrow> (q, (p - 1) # (p - 2) # rs))
         else (p, [p - 1, p - 2]))
      else (p, []))"
  by pat_completeness auto
termination
  apply (relation "measure (\<lambda>(m, e, p). unat e - unat p)")
    apply simp
   apply (clarsimp simp: word_less_nat_alt, unat_arith)
  apply (clarsimp simp: word_less_nat_alt, unat_arith)
  done

declare smbios_scan.simps [simp del]

text \<open>The final test of \<open>smbios_next\<close>, after the reads \<open>rs\<close>.\<close>

definition smbios_check :: "mem \<Rightarrow> u32 \<Rightarrow> u32 \<Rightarrow> u32 list \<Rightarrow> u32 \<times> u32 list" where
  "smbios_check m e p rs =
     (if p \<ge> e \<or> p + 4 \<ge> e then (0, rs)
      else if p + ucast (m (p + 1)) \<ge> e then (0, rs @ [p + 1])
      else (p, rs @ [p + 1]))"

definition smbios_next_tr :: "mem \<Rightarrow> u32 \<Rightarrow> u32 \<Rightarrow> u32 \<Rightarrow> u32 \<times> u32 list" where
  "smbios_next_tr m start len prev =
     (if start = 0 then (0, [])
      else
        let e = start + len in
        if prev = 0 then smbios_check m e start []
        else if prev + 4 > e then (0, [])
        else (case smbios_scan m e (prev + (ucast (m (prev + 1)) + 2)) of
                (p, rs) \<Rightarrow> smbios_check m e p ((prev + 1) # rs)))"

definition smbios_next :: "mem \<Rightarrow> u32 \<Rightarrow> u32 \<Rightarrow> u32 \<Rightarrow> u32" where
  "smbios_next m start len prev = fst (smbios_next_tr m start len prev)"

section \<open>SMBIOS entry points\<close>

text \<open>
  \<open>struct smbios_21_entry_point\<close> (31 bytes): signature at 0, checksum at 4, length at 5,
  major and minor version at 6 and 7, max_structure_size (16 bit) at 8, the anchor
  string at 16, intermediate_checksum at 21, structure_table_length (16 bit) at 22,
  structure_table_address at 24, number_of_structures (16 bit) at 28.
  \<open>struct smbios_30_entry_point\<close> (24 bytes): the five signature bytes at 0, checksum
  at 5, length at 6, major and minor version at 7 and 8, structure_table_max_size at 12,
  structure_table_address (64 bit) at 16.
\<close>

definition smbios_21_next :: "mem \<Rightarrow> u32 \<Rightarrow> u32 \<Rightarrow> u32" where
  "smbios_21_next m smbios prev =
     (if smbios = 0 then 0
      else smbios_next m (rd32 m (smbios + 24)) (ucast (rd16 m (smbios + 22))) prev)"

definition copy_smbios_21 :: "'h pools \<Rightarrow> 'h bios \<Rightarrow> u32 \<Rightarrow> 'h bios" where
  "copy_smbios_21 A s pos =
     (let m = memory s in
      if SMBios21Addr s \<noteq> 0 then s
      else if rd32 m pos \<noteq> SMBIOS_21_SIGNATURE then s
      else if checksum m pos 0x10 \<noteq> 0 then s
      else if read_bytes m (pos + 16) 5 \<noteq> cstr ''_DMI_'' then s
      else if checksum m (pos + 0x10) (ucast (m (pos + 5)) - 0x10) \<noteq> 0 then s
      else (case copy_fseg_table A s pos (ucast (m (pos + 5))) of
              (newpos, s') \<Rightarrow> s'\<lparr>SMBios21Addr := newpos\<rparr>))"

definition valid_smbios_30_signature :: "mem \<Rightarrow> u32 \<Rightarrow> bool" where
  "valid_smbios_30_signature m p = (read_bytes m p 5 = cstr ''_SM3_'')"

definition copy_smbios_30 :: "'h pools \<Rightarrow> 'h bios \<Rightarrow> u32 \<Rightarrow> 'h bios" where
  "copy_smbios_30 A s pos =
     (let m = memory s in
      if SMBios30Addr s \<noteq> 0 then s
      else if \<not> valid_smbios_30_signature m pos then s
      else if checksum m pos (ucast (m (pos + 6))) \<noteq> 0 then s
      else (case copy_fseg_table A s pos (ucast (m (pos + 6))) of
              (newpos, s') \<Rightarrow> s'\<lparr>SMBios30Addr := newpos\<rparr>))"

text \<open>
  \<open>smbios_get_tables\<close> returns the pointer (\<open>0\<close> for \<open>NULL\<close>) and the value of \<open>*length\<close>
  after the call; \<open>len0\<close> is its value before.
\<close>

definition smbios_get_tables :: "'h bios \<Rightarrow> u32 \<Rightarrow> u32 \<times> u32" where
  "smbios_get_tables s len0 =
     (let m = memory s;
          addr32 = (ucast (rd64 m (SMBios30Addr s + 16)) :: u32)
      in
        if SMBios30Addr s \<noteq> 0 \<and> ucast addr32 = rd64 m (SMBios30Addr s + 16)
          then (addr32, rd32 m (SMBios30Addr s + 12))
        else if SMBios21Addr s \<noteq> 0
          then (rd32 m (SMBios21Addr s + 24), ucast (rd16 m (SMBios21Addr s + 22)))
        else (0, len0))"



section \<open>UUID display\<close>






section \<open>SMBIOS table builder\<close>

text \<open>
  The macro \<open>set_str_field_or_skip\<close>: the running state is the memory, the pointer \<open>end\<close>
  and \<open>str_index\<close>; \<open>field\<close> is the address of the structure's string-index byte. The
  string arguments of this file are literals, never \<open>NULL\<close>.
\<close>

definition set_str_field_or_skip :: "u32 \<Rightarrow> string \<Rightarrow> mem \<times> u32 \<times> u8 \<Rightarrow> mem \<times> u32 \<times> u8" where
  "set_str_field_or_skip field v st =
     (case st of (m, e, str_index) \<Rightarrow>
        if strlen v + 1 > 1
          then ((write_bytes m e (cstr v @ [0]))(field := str_index + 1),
                e + of_nat (strlen v + 1), str_index + 1)
        else (m(field := 0), e, str_index))"

text \<open>
  \<open>struct smbios_type_0\<close> (24 bytes): the header, vendor_str at 4, bios_version_str at 5,
  bios_starting_address_segment (16 bit) at 6, bios_release_date_str at 8, bios_rom_size
  at 9, bios_characteristics at 10 (8 bytes), the two extension bytes at 18, the BIOS
  release at 20 and 21, the embedded controller release at 22 and 23.
  \<open>smbios_new_type_0\<close> returns the memory and the pointer behind the record.
\<close>

definition smbios_new_type_0 :: "mem \<Rightarrow> u32 \<Rightarrow> string \<Rightarrow> string \<Rightarrow> string \<Rightarrow> mem \<times> u32" where
  "smbios_new_type_0 m start vendor version date =
     (let m1 = wr16 ((m(start := 0))(start + 1 := 24)) (start + 2) 0;
          st1 = set_str_field_or_skip (start + 4) vendor (m1, start + 24, 0);
          st2 = set_str_field_or_skip (start + 5) version st1
      in (case st2 of (m2, e2, i2) \<Rightarrow>
        (case set_str_field_or_skip (start + 8) date (wr16 m2 (start + 6) 0xe800, e2, i2) of
           (m3, e3, str_index) \<Rightarrow>
             let m4 = m3(start + 9 := 0);
                 m5 = (write_bytes m4 (start + 10) (replicate 8 0))(start + 10 := 0x08);
                 m6 = (m5(start + 18 := 0))(start + 19 := 4);
                 m7 = (((m6(start + 20 := 0))(start + 21 := 0))(start + 22 := 0xFF))
                        (start + 23 := 0xFF);
                 m8 = m7(e3 := 0)
             in if str_index = 0 then (m8(e3 + 1 := 0), e3 + 2) else (m8, e3 + 1))))"

definition BIOS_NAME :: string where "BIOS_NAME = ''DellBIOS''"
definition BIOS_DATE :: string where "BIOS_DATE = ''05/05/2022''"

text \<open>
  Modelled from the spec: a configuration file (romfile.h) is a collaborator with the
  interface \<open>{size, copy(dest, max_len)}\<close>: \<open>copy\<close> stores the file's bytes at \<open>dest\<close>.
\<close>

record romfile =
  rf_size :: u32
  rf_data :: "u8 list"

definition romfile_copy :: "mem \<Rightarrow> romfile \<Rightarrow> u32 \<Rightarrow> u32 \<Rightarrow> mem" where
  "romfile_copy m f dst maxlen = write_bytes m dst (take (unat maxlen) (rf_data f))"

text \<open>
  The search for a type 0 structure in \<open>smbios_build_tables\<close>, from the structure \<open>t0\<close> on;
  the result is \<open>need_t0\<close>.
\<close>

partial_function (option) find_type0 :: "mem \<Rightarrow> u32 \<Rightarrow> u32 \<Rightarrow> u32 \<Rightarrow> bool option" where
  "find_type0 m qtables qtables_len t0 =
     (if t0 = 0 then Some True
      else if m t0 = 0 then Some False
      else find_type0 m qtables qtables_len (smbios_next m qtables qtables_len t0))"

text \<open>
  The out-parameters of \<open>smbios_build_tables\<close>; the two optional ones are \<open>None\<close> when the
  caller passes \<open>NULL\<close>.
\<close>

record build_out =
  bo_address :: u64
  bo_length :: u32
  bo_max_structure_size :: "u16 option"
  bo_number_of_structures :: "u16 option"

definition t0_length :: "string \<Rightarrow> u16" where
  "t0_length version = of_nat (24 + strlen BIOS_NAME + strlen version + strlen BIOS_DATE + 4)"

definition grow_out :: "u16 \<Rightarrow> build_out \<Rightarrow> build_out" where
  "grow_out t0_len out =
     out\<lparr>bo_length := bo_length out + ucast t0_len,
         bo_max_structure_size :=
           (case bo_max_structure_size out of
              None \<Rightarrow> None
            | Some mx \<Rightarrow> Some (if t0_len > mx then t0_len else mx)),
         bo_number_of_structures :=
           (case bo_number_of_structures out of None \<Rightarrow> None | Some n \<Rightarrow> Some (n + 1))\<rparr>"

text \<open>
  \<open>smbios_build_tables\<close>: the build-time string \<open>VERSION\<close> and the constant
  \<open>BUILD_MAX_SMBIOS_FSEG\<close> (config.h) are the parameters \<open>version\<close> and \<open>max_fseg\<close>. The
  result is the returned \<open>int\<close>, the state and the out-parameters; \<open>None\<close> when the
  search for a type 0 structure does not return.
\<close>

definition smbios_build_tables ::
  "'h pools \<Rightarrow> string \<Rightarrow> u32 \<Rightarrow> 'h bios \<Rightarrow> romfile \<Rightarrow> build_out \<Rightarrow> (int \<times> 'h bios \<times> build_out) option" where
  "smbios_build_tables A version max_fseg s f_tables out =
     (if rf_size f_tables \<noteq> bo_length out then Some (0, s, out)
      else (case malloc_tmphigh A (heap s) (rf_size f_tables) of (qtables, h1) \<Rightarrow>
        if qtables = 0 then Some (0, s\<lparr>heap := h1\<rparr>, out)
        else
          let m1 = romfile_copy (memory s) f_tables qtables (rf_size f_tables);
              qtables_len = rf_size f_tables
          in (case find_type0 m1 qtables qtables_len (smbios_next m1 qtables qtables_len 0) of
            None \<Rightarrow> None
          | Some found_none \<Rightarrow>
              let t0_len = t0_length version;
                  need_t0 = (found_none \<and> \<not> ucast t0_len > 0xffff - bo_length out);
                  out1 = (if need_t0 then grow_out t0_len out else out)
              in (case (if bo_length out1 > max_fseg then malloc_high A h1 (bo_length out1)
                        else malloc_fseg A h1 (bo_length out1)) of (tables, h2) \<Rightarrow>
                if tables = 0
                  then Some (0, s\<lparr>memory := m1, heap := pool_free A h2 qtables\<rparr>, out1)
                else (case (if need_t0
                            then smbios_new_type_0 m1 tables BIOS_NAME version BIOS_DATE
                            else (m1, tables)) of (m2, tables') \<Rightarrow>
                  Some (1, s\<lparr>memory := memcpy m2 tables' qtables (unat qtables_len),
                              heap := pool_free A h2 qtables\<rparr>,
                        out1\<lparr>bo_address := ucast tables\<rparr>))))))"

section \<open>Example data\<close>

text \<open>A pool that hands out consecutive blocks from its state, and one that is exhausted.\<close>

definition bump :: "u32 \<Rightarrow> u32 \<Rightarrow> u32 \<times> u32" where
  "bump h sz = (h, h + sz)"

definition bump_pools :: "u32 pools" where
  "bump_pools = \<lparr>malloc_fseg = bump, malloc_high = bump, malloc_tmphigh = bump,
                 pool_free = (\<lambda>h p. h)\<rparr>"

definition no_reg :: acpi_20_generic_address where
  "no_reg = \<lparr>address_space_id = 0, register_bit_width = 0, register_bit_offset = 0,
            ga_reserved = 0, ga_address = 0\<rparr>"

text \<open>The state at power-on over the memory \<open>m\<close>: every global is zero.\<close>

definition boot :: "mem \<Rightarrow> 'h \<Rightarrow> 'h bios" where
  "boot m h = \<lparr>memory = m, heap = h, PirAddr = 0, RsdpAddr = 0, SMBios21Addr = 0,
              SMBios30Addr = 0, acpi_reset_reg = no_reg, acpi_reset_val = 0\<rparr>"

text \<open>Two structures in 13 bytes: one of type 1 with the string \<open>A\<close>, one of type 2.\<close>

definition two_structures :: "u8 list" where
  "two_structures = [1, 4, 0, 0, 0x41, 0, 0, 2, 4, 1, 0, 0, 0]"

text \<open>A PIR table of 32 bytes with a zero checksum.\<close>

definition pir_table :: "u8 list" where
  "pir_table =
    [0x24, 0x50, 0x49, 0x52, 0x00, 0x01, 0x20, 0x00, 0x00, 0x00, 0x00, 0x00,
     0x00, 0x00, 0x00, 0x00, 0x00, 0x00, 0x00, 0x00, 0x00, 0x00, 0x00, 0x00,
     0x00, 0x00, 0x00, 0x00, 0x00, 0x00, 0x00, 0xD0]"

text \<open>An RSDP of revision 0 (20 bytes) with a zero checksum.\<close>

definition rsdp_table :: "u8 list" where
  "rsdp_table =
    [0x52, 0x53, 0x44, 0x20, 0x50, 0x54, 0x52, 0x20, 0x23, 0x42, 0x4F, 0x43,
     0x48, 0x53, 0x20, 0x00, 0x00, 0x20, 0x0F, 0x00]"

text \<open>An RSDP of revision 2 that declares the length \<open>0x80000000\<close>; both checksums are
  zero when the memory behind its 36 bytes is zero.\<close>

definition rsdp_huge :: "u8 list" where
  "rsdp_huge =
    [0x52, 0x53, 0x44, 0x20, 0x50, 0x54, 0x52, 0x20, 0x21, 0x42, 0x4F, 0x43,
     0x48, 0x53, 0x20, 0x02, 0x00, 0x20, 0x0F, 0x00, 0x00, 0x00, 0x00, 0x80,
     0x00, 0x00, 0x00, 0x00, 0x00, 0x00, 0x00, 0x00, 0x80, 0x00, 0x00, 0x00]"

text \<open>SMBIOS 2.1 entry points of version 2.6 and 2.5 for the structure table of 29 bytes at
  \<open>0x3000\<close>.\<close>

definition smbios21_ep_v26 :: "u8 list" where
  "smbios21_ep_v26 =
    [0x5F, 0x53, 0x4D, 0x5F, 0x60, 0x1F, 0x02, 0x06, 0x1B, 0x00, 0x00, 0x00,
     0x00, 0x00, 0x00, 0x00, 0x5F, 0x44, 0x4D, 0x49, 0x5F, 0xF4, 0x1D, 0x00,
     0x00, 0x30, 0x00, 0x00, 0x01, 0x00, 0x26]"


text \<open>SMBIOS 3.0 entry points for the same table; the second has the table above 4 GiB.\<close>

definition smbios30_ep :: "u8 list" where
  "smbios30_ep =
    [0x5F, 0x53, 0x4D, 0x33, 0x5F, 0x06, 0x18, 0x03, 0x00, 0x00, 0x01, 0x00,
     0x1D, 0x00, 0x00, 0x00, 0x00, 0x30, 0x00, 0x00, 0x00, 0x00, 0x00, 0x00]"

definition smbios30_ep_high :: "u8 list" where
  "smbios30_ep_high =
    [0x5F, 0x53, 0x4D, 0x33, 0x5F, 0x05, 0x18, 0x03, 0x00, 0x00, 0x01, 0x00,
     0x1D, 0x00, 0x00, 0x00, 0x00, 0x30, 0x00, 0x00, 0x01, 0x00, 0x00, 0x00]"

text \<open>An MP floating pointer of one paragraph, one with the length byte 0, and the
  configuration table of 8 bytes they refer to at \<open>0xF0010\<close>.\<close>

definition mp_floating :: "u8 list" where
  "mp_floating =
    [0x5F, 0x4D, 0x50, 0x5F, 0x10, 0x00, 0x0F, 0x00, 0x01, 0x04, 0x81, 0x00,
     0x00, 0x00, 0x00, 0x00]"

definition mp_floating0 :: "u8 list" where
  "mp_floating0 =
    [0x5F, 0x4D, 0x50, 0x5F, 0x10, 0x00, 0x0F, 0x00, 0x00, 0x04, 0x82, 0x00,
     0x00, 0x00, 0x00, 0x00]"

definition mp_config :: "u8 list" where
  "mp_config =
    [0x50, 0x43, 0x4D, 0x50, 0x08, 0x00, 0x04, 0x00]"

text \<open>A structure table of 29 bytes: one type 1 structure with the UUID
  \<open>00 11 22 33 44 55 66 77 88 99 AA BB CC DD EE FF\<close>.\<close>

definition type1_table :: "u8 list" where
  "type1_table =
    [0x01, 0x1B, 0x00, 0x01, 0x00, 0x00, 0x00, 0x00, 0x00, 0x11, 0x22, 0x33,
     0x44, 0x55, 0x66, 0x77, 0x88, 0x99, 0xAA, 0xBB, 0xCC, 0xDD, 0xEE, 0xFF,
     0x06, 0x00, 0x00, 0x00, 0x00]"

text \<open>
  A memory with a 3.0 entry point at \<open>0x2FC0\<close>, a 2.1 entry point at \<open>0x2FE0\<close> and the
  structure table at \<open>0x3000\<close>.
\<close>

definition smbios_image :: "u8 list \<Rightarrow> u8 list \<Rightarrow> mem" where
  "smbios_image ep30 ep21 = load 0x2FC0 (ep30 @ replicate 8 0 @ ep21 @ [0] @ type1_table)"

text \<open>
  The state after power-on with the given 3.0 entry point and the 2.1 entry point of
  version 2.6 in memory, and the registrations \<open>a30\<close> and \<open>a21\<close>.
\<close>

definition ex_both :: "u8 list \<Rightarrow> u32 \<Rightarrow> u32 \<Rightarrow> unit bios" where
  "ex_both ep30 a30 a21 =
     (boot (smbios_image ep30 smbios21_ep_v26) ())\<lparr>SMBios21Addr := a21, SMBios30Addr := a30\<rparr>"

text \<open>
  The registers \<open>acpi_set_reset_reg\<close> rejects, a sequence of calls of it, and two
  register descriptors: the I/O port \<open>0xCF9\<close>, once 8 and once 16 bits wide.
\<close>

definition reg_rejected :: "mem \<Rightarrow> u32 \<Rightarrow> bool" where
  "reg_rejected m reg = (reg = 0 \<or> m reg > 2 \<or> m (reg + 1) \<noteq> 8 \<or> m (reg + 2) \<noteq> 0)"

fun acpi_set_reset_regs :: "'h bios \<Rightarrow> (u32 \<times> u8) list \<Rightarrow> 'h bios" where
  "acpi_set_reset_regs s [] = s"
| "acpi_set_reset_regs s (c # cs) = acpi_set_reset_regs (acpi_set_reset_reg s (fst c) (snd c)) cs"

definition reset_reg_io :: "u8 list" where
  "reset_reg_io = [1, 8, 0, 0, 0xF9, 0x0C, 0, 0, 0, 0, 0, 0]"

definition reset_reg_wide :: "u8 list" where
  "reset_reg_wide = [1, 16, 0, 0, 0xF9, 0x0C, 0, 0, 0, 0, 0, 0]"

text \<open>
  States after power-on with a pool of consecutive blocks from \<open>0xE0000\<close>: one with a PIR
  table at \<open>0xF0000\<close>, an RSDP at \<open>0xF0020\<close>, a 2.1 entry point at \<open>0xF0040\<close> and a 3.0
  entry point at \<open>0xF0060\<close>; one with an MP floating pointer at \<open>0xF0000\<close> and its
  configuration table; one with the RSDP that declares the length \<open>0x80000000\<close>.
\<close>

definition ex_tables :: "u32 bios" where
  "ex_tables =
     boot (load 0xF0000 (pir_table @ rsdp_table @ replicate 12 0 @ smbios21_ep_v26 @ [0]
             @ smbios30_ep)) 0xE0000"

definition ex_mptable :: "u32 bios" where
  "ex_mptable = boot (load 0xF0000 (mp_floating @ mp_config)) 0xE0000"

definition ex_huge :: "u32 bios" where
  "ex_huge = boot (load 0x1000 rsdp_huge) 0xE0000"

text \<open>
  The lookup as the specification words it, to compare \<open>find_acpi_table\<close> with. A table
  holds \<open>(length - header_size) / pointer_width\<close> entries, the header being 36 bytes; an
  XSDT entry matches when it is below 4 GiB, not null and points to the requested
  signature; the XSDT is usable when its 64-bit pointer is below 4 GiB, not null and
  points to the XSDT signature.
\<close>

definition xsdt_entries :: "mem \<Rightarrow> u32 \<Rightarrow> u64 list" where
  "xsdt_entries m xsdt =
     map (\<lambda>i. rd64 m (xsdt + 36 + 8 * of_nat i)) [0 ..< (unat (rd32 m (xsdt + 4)) - 36) div 8]"

definition rsdt_entries :: "mem \<Rightarrow> u32 \<Rightarrow> u32 list" where
  "rsdt_entries m rsdt =
     map (\<lambda>i. rd32 m (rsdt + 36 + 4 * of_nat i)) [0 ..< (unat (rd32 m (rsdt + 4)) - 36) div 4]"

definition xsdt_match :: "mem \<Rightarrow> u32 \<Rightarrow> u64 \<Rightarrow> bool" where
  "xsdt_match m sg ent = (ent < 0x100000000 \<and> (ucast ent :: u32) \<noteq> 0 \<and> rd32 m (ucast ent) = sg)"

definition rsdt_match :: "mem \<Rightarrow> u32 \<Rightarrow> u32 \<Rightarrow> bool" where
  "rsdt_match m sg ent = (ent \<noteq> 0 \<and> rd32 m ent = sg)"

definition xsdt_of :: "'h bios \<Rightarrow> u32" where
  "xsdt_of s = (if rd64 (memory s) (RsdpAddr s + 24) \<ge> 0x100000000 then 0
                else ucast (rd64 (memory s) (RsdpAddr s + 24)))"

definition xsdt_usable :: "'h bios \<Rightarrow> bool" where
  "xsdt_usable s = (xsdt_of s \<noteq> 0 \<and> rd32 (memory s) (xsdt_of s) = XSDT_SIGNATURE)"

definition rsdt_of :: "'h bios \<Rightarrow> u32" where
  "rsdt_of s = rd32 (memory s) (RsdpAddr s + 16)"

definition rsdt_usable :: "'h bios \<Rightarrow> bool" where
  "rsdt_usable s = (rsdt_of s \<noteq> 0 \<and> rd32 (memory s) (rsdt_of s) = RSDT_SIGNATURE)"

text \<open>
  The lookup over given entry lists: the first matching entry of a usable XSDT, else the
  first matching entry of a usable RSDT, else \<open>NULL\<close>; \<open>NULL\<close> without a registered RSDP.
\<close>

definition lookup_in ::
  "(mem \<Rightarrow> u32 \<Rightarrow> u64 list) \<Rightarrow> (mem \<Rightarrow> u32 \<Rightarrow> u32 list) \<Rightarrow> 'h bios \<Rightarrow> u32 \<Rightarrow> u32" where
  "lookup_in xs_of rs_of s sg =
     (if RsdpAddr s = 0 \<or> rd64 (memory s) (RsdpAddr s) \<noteq> RSDP_SIGNATURE then 0
      else
        (case (if xsdt_usable s
               then find (xsdt_match (memory s) sg) (xs_of (memory s) (xsdt_of s))
               else None) of
           Some ent \<Rightarrow> ucast ent
         | None \<Rightarrow>
             (case (if rsdt_usable s
                    then find (rsdt_match (memory s) sg) (rs_of (memory s) (rsdt_of s))
                    else None) of
                Some ent \<Rightarrow> ent
              | None \<Rightarrow> 0)))"

definition acpi_lookup :: "'h bios \<Rightarrow> u32 \<Rightarrow> u32" where
  "acpi_lookup = lookup_in xsdt_entries rsdt_entries"

text \<open>
  The lookup as amended. The entries walked are those whose first byte lies before
  \<open>table + length\<close>: an entry that the declared length cuts short is walked too.
  \<open>table_fits\<close> says that a table and one entry behind it lie inside the 32-bit address
  space, and \<open>whole_entries\<close> that the declared length ends at an entry boundary.
\<close>

definition xsdt_walked :: "mem \<Rightarrow> u32 \<Rightarrow> u64 list" where
  "xsdt_walked m xsdt =
     map (\<lambda>i. rd64 m (xsdt + 36 + 8 * of_nat i))
       [0 ..< (unat (rd32 m (xsdt + 4)) - 36 + 7) div 8]"

definition rsdt_walked :: "mem \<Rightarrow> u32 \<Rightarrow> u32 list" where
  "rsdt_walked m rsdt =
     map (\<lambda>i. rd32 m (rsdt + 36 + 4 * of_nat i))
       [0 ..< (unat (rd32 m (rsdt + 4)) - 36 + 3) div 4]"

definition acpi_walk :: "'h bios \<Rightarrow> u32 \<Rightarrow> u32" where
  "acpi_walk = lookup_in xsdt_walked rsdt_walked"

definition table_fits :: "u32 \<Rightarrow> u32 \<Rightarrow> bool" where
  "table_fits t len = (unat t + 44 \<le> 2 ^ 32 \<and> unat t + unat len + 8 \<le> 2 ^ 32)"


text \<open>
  An ACPI table chain at \<open>0x1000\<close>: an RSDP of revision 2; at \<open>0x1040\<close> an XSDT with the
  three entries null, \<open>0x1000010C0\<close> (above 4 GiB) and \<open>0x10C0\<close>; at \<open>0x1080\<close> an RSDT
  with the entries \<open>0x10C0\<close> and \<open>0x10D0\<close>; at \<open>0x10C0\<close> a table with the signature
  \<open>FACP\<close>, at \<open>0x10D0\<close> one with the signature \<open>APIC\<close>.
\<close>

definition acpi_image :: "u8 list" where
  "acpi_image =
    [0x52, 0x53, 0x44, 0x20, 0x50, 0x54, 0x52, 0x20, 0xC0, 0x42, 0x4F, 0x43,
     0x48, 0x53, 0x20, 0x02, 0x80, 0x10, 0x00, 0x00, 0x24, 0x00, 0x00, 0x00,
     0x40, 0x10, 0x00, 0x00, 0x00, 0x00, 0x00, 0x00, 0x8C, 0x00, 0x00, 0x00,
     0x00, 0x00, 0x00, 0x00, 0x00, 0x00, 0x00, 0x00, 0x00, 0x00, 0x00, 0x00,
     0x00, 0x00, 0x00, 0x00, 0x00, 0x00, 0x00, 0x00, 0x00, 0x00, 0x00, 0x00,
     0x00, 0x00, 0x00, 0x00, 0x58, 0x53, 0x44, 0x54, 0x3C, 0x00, 0x00, 0x00,
     0x00, 0x00, 0x00, 0x00, 0x00, 0x00, 0x00, 0x00, 0x00, 0x00, 0x00, 0x00,
     0x00, 0x00, 0x00, 0x00, 0x00, 0x00, 0x00, 0x00, 0x00, 0x00, 0x00, 0x00,
     0x00, 0x00, 0x00, 0x00, 0x00, 0x00, 0x00, 0x00, 0x00, 0x00, 0x00, 0x00,
     0xC0, 0x10, 0x00, 0x00, 0x01, 0x00, 0x00, 0x00, 0xC0, 0x10, 0x00, 0x00,
     0x00, 0x00, 0x00, 0x00, 0x00, 0x00, 0x00, 0x00, 0x52, 0x53, 0x44, 0x54,
     0x2C, 0x00, 0x00, 0x00, 0x00, 0x00, 0x00, 0x00, 0x00, 0x00, 0x00, 0x00,
     0x00, 0x00, 0x00, 0x00, 0x00, 0x00, 0x00, 0x00, 0x00, 0x00, 0x00, 0x00,
     0x00, 0x00, 0x00, 0x00, 0x00, 0x00, 0x00, 0x00, 0xC0, 0x10, 0x00, 0x00,
     0xD0, 0x10, 0x00, 0x00, 0x00, 0x00, 0x00, 0x00, 0x00, 0x00, 0x00, 0x00,
     0x00, 0x00, 0x00, 0x00, 0x00, 0x00, 0x00, 0x00, 0x00, 0x00, 0x00, 0x00,
     0x46, 0x41, 0x43, 0x50, 0x00, 0x00, 0x00, 0x00, 0x00, 0x00, 0x00, 0x00,
     0x00, 0x00, 0x00, 0x00, 0x41, 0x50, 0x49, 0x43]"


text \<open>
  The same chain with the RSDT's first entry pointing to the \<open>APIC\<close> table, so that only
  the XSDT leads to \<open>FACP\<close>, and with the XSDT's declared length \<open>xlen\<close> (4 bytes, little
  endian).
\<close>

definition ex_acpi_len :: "u8 list \<Rightarrow> unit bios" where
  "ex_acpi_len xlen =
     (boot (load 0x1000 (take 68 acpi_image @ xlen @ take 92 (drop 72 acpi_image)
                          @ [0xD0] @ drop 165 acpi_image)) ())\<lparr>RsdpAddr := 0x1000\<rparr>"





text \<open>The state with the MP floating pointer whose length byte is 0.\<close>

definition ex_mptable0 :: "u32 bios" where
  "ex_mptable0 = boot (load 0xF0000 (mp_floating0 @ mp_config)) 0xE0000"

text \<open>The address \<open>k\<close> bytes behind \<open>p\<close>.\<close>

definition off :: "u32 \<Rightarrow> nat \<Rightarrow> u32" where
  "off p k = p + of_nat k"













section \<open>Properties\<close>

subsection \<open>Word arithmetic\<close>

lemma unat_succ: "(p::u32) < e \<Longrightarrow> unat (p + 1) = unat p + 1"
  by unat_arith

lemma unat_pred1: "1 \<le> unat (p::u32) \<Longrightarrow> unat (p - 1) = unat p - 1"
  by unat_arith

lemma unat_pred2: "2 \<le> unat (p::u32) \<Longrightarrow> unat (p - 2) = unat p - 2"
  by unat_arith

lemma unat_u8_lt: "unat (b :: u8) < 256"
  using unsigned_less [of b, where ?'a = nat] by simp

lemma unat_u8_u32: "unat (ucast (b :: u8) :: u32) = unat b"
  using unat_u8_lt [of b] by (simp add: unsigned_ucast_eq take_bit_nat_eq_self)

lemma unat_add_small:
  "unat (p :: u32) + n < 2 ^ 32 \<Longrightarrow> unat (p + of_nat n) = unat p + n"
  by (simp add: unat_word_ariths unat_of_nat take_bit_nat_eq_self mod_add_right_eq)

subsection \<open>The SMBIOS iterator\<close>

text \<open>The scan moves forward, and only as far as the end of the table.\<close>

lemma scan_cursor:
  "p \<le> fst (smbios_scan m e p) \<and> (fst (smbios_scan m e p) = p \<or> fst (smbios_scan m e p) \<le> e)"
proof (induction m e p rule: smbios_scan.induct)
  case (1 m e p)
  show ?case
  proof (cases "p < e")
    case False
    then show ?thesis by (simp add: smbios_scan.simps [of m e p])
  next
    case True
    then have s: "unat (p + 1) = unat p + 1" by (rule unat_succ)
    from True s have le: "p \<le> p + 1" "p + 1 \<le> e"
      by (simp_all add: word_le_nat_alt word_less_nat_alt)
    show ?thesis
      using 1 True le
      by (subst (1 2 3) smbios_scan.simps) (auto split: prod.splits)
  qed
qed

text \<open>Started at an address of at least 2, the scan reads below \<open>e - 1\<close> only.\<close>

lemma scan_reads:
  "2 \<le> unat p \<Longrightarrow> a \<in> set (snd (smbios_scan m e p)) \<Longrightarrow> unat a + 1 < unat e"
proof (induction m e p rule: smbios_scan.induct)
  case (1 m e p)
  show ?case
  proof (cases "p < e")
    case False
    with 1(4) show ?thesis by (simp add: smbios_scan.simps [of m e p])
  next
    case True
    then have s: "unat (p + 1) = unat p + 1" by (rule unat_succ)
    have p1: "unat (p - 1) = unat p - 1" and p2: "unat (p - 2) = unat p - 2"
      using 1(3) by (simp_all add: unat_pred1 unat_pred2)
    from True have lt: "unat p < unat e" by (simp add: word_less_nat_alt)
    show ?thesis
      using 1 True s p1 p2 lt
      by (subst (asm) (3) smbios_scan.simps) (auto split: prod.splits if_splits)
  qed
qed

text \<open>Where the scan stops before the end, the two bytes before it are NUL.\<close>

lemma scan_stop:
  "fst (smbios_scan m e p) < e \<Longrightarrow>
     m (fst (smbios_scan m e p) - 1) = 0 \<and> m (fst (smbios_scan m e p) - 2) = 0"
proof (induction m e p rule: smbios_scan.induct)
  case (1 m e p)
  then show ?case
    by (subst (1 2) smbios_scan.simps, subst (asm) (3) smbios_scan.simps)
       (auto split: prod.splits if_splits)
qed

lemma check_fst:
  "fst (smbios_check m e p rs) =
     (if p < e \<and> p + 4 < e \<and> p + ucast (m (p + 1)) < e then p else 0)"
  by (auto simp: smbios_check_def not_le)

lemma check_snd:
  "a \<in> set (snd (smbios_check m e p rs)) \<Longrightarrow> a \<in> set rs \<or> (a = p + 1 \<and> p < e \<and> p + 4 < e)"
  by (auto simp: smbios_check_def not_le split: if_splits)

lemma next_reads_bounded:
  assumes tab: "unat start + unat len + 256 \<le> 2 ^ 32"
    and prv: "unat prev \<le> unat start + unat len"
    and a: "a \<in> set (snd (smbios_next_tr m start len prev))"
  shows "unat a < unat start + unat len"
proof -
  let ?e = "start + len"
  let ?b = "m (prev + 1)"
  let ?p0 = "prev + (ucast ?b + 2)"
  from tab have e: "unat ?e = unat start + unat len"
    by (simp add: unat_word_ariths)
  have small: "unat (p + of_nat n) = unat p + n" if "unat p \<le> unat ?e" "n \<le> 255" for p :: u32 and n
    using that tab e by (intro unat_add_small) simp
  have chk: "unat x < unat ?e" if "x \<in> set (snd (smbios_check m ?e p rs))"
    "\<forall>y \<in> set rs. unat y < unat ?e" for x p rs
  proof -
    from check_snd [OF that(1)] show ?thesis
    proof
      assume "x \<in> set rs" with that(2) show ?thesis by simp
    next
      assume h: "x = p + 1 \<and> p < ?e \<and> p + 4 < ?e"
      then have "unat p < unat ?e" by (simp add: word_less_nat_alt)
      with small [of p 1] small [of p 4] h show ?thesis
        by (simp add: word_less_nat_alt)
    qed
  qed
  show ?thesis
  proof (cases "start = 0 \<or> (prev \<noteq> 0 \<and> prev + 4 > ?e)")
    case True
    with a show ?thesis
      unfolding smbios_next_tr_def Let_def by (auto split: if_splits)
  next
    case False
    show ?thesis
    proof (cases "prev = 0")
      case True
      with False a have "a \<in> set (snd (smbios_check m ?e start []))"
        unfolding smbios_next_tr_def Let_def by simp
      from chk [OF this] e show ?thesis by simp
    next
      case nz: False
      with False have le: "prev + 4 \<le> ?e" and s0: "start \<noteq> 0" by (simp_all add: not_less)
      from prv e have pe: "unat prev \<le> unat ?e" by simp
      from small [OF pe, of 4] le have p4: "unat prev + 4 \<le> unat ?e"
        by (simp add: word_le_nat_alt)
      from small [OF pe, of 1] have p1: "unat (prev + 1) = unat prev + 1" by simp
      have "unat (ucast ?b + 2 :: u32) = unat ?b + 2"
        using unat_u8_lt [of ?b] by (simp add: unat_word_ariths unat_u8_u32)
      moreover have "unat prev + (unat ?b + 2) < 2 ^ 32"
        using unat_u8_lt [of ?b] p4 tab e by simp
      ultimately have p0: "unat ?p0 = unat prev + unat ?b + 2"
        by (simp add: unat_word_ariths)
      obtain q rs where sc: "smbios_scan m ?e ?p0 = (q, rs)" by (cases "smbios_scan m ?e ?p0")
      have "unat y < unat ?e" if "y \<in> set rs" for y
        using scan_reads [of ?p0 y m ?e] sc p0 that by simp
      then have rd: "\<forall>y \<in> set ((prev + 1) # rs). unat y < unat ?e"
        using p1 p4 by simp
      from a nz s0 le sc have "a \<in> set (snd (smbios_check m ?e q ((prev + 1) # rs)))"
        unfolding smbios_next_tr_def Let_def by (simp add: not_less [symmetric])
      from chk [OF this rd] e show ?thesis by simp
    qed
  qed
qed

lemma next_result_bounded:
  assumes tab: "unat start + unat len + 256 \<le> 2 ^ 32"
    and r: "smbios_next m start len prev = r" and nz: "r \<noteq> 0"
  shows "unat r < unat start + unat len \<and> unat r + 4 < unat start + unat len
           \<and> unat r + unat (m (r + 1)) < unat start + unat len"
proof -
  let ?e = "start + len"
  from tab have e: "unat ?e = unat start + unat len"
    by (simp add: unat_word_ariths)
  have "\<exists>rs. r = fst (smbios_check m ?e r rs)"
    using r nz unfolding smbios_next_def smbios_next_tr_def Let_def
    by (auto simp: check_fst split: if_splits prod.splits)
  with nz have c: "r < ?e" "r + 4 < ?e" "r + ucast (m (r + 1)) < ?e"
    by (auto simp: check_fst split: if_splits)
  from c(1) have lt: "unat r < unat ?e" by (simp add: word_less_nat_alt)
  have "unat (r + 4) = unat r + 4"
    using unat_add_small [of r 4] lt tab e by simp
  moreover have "unat (r + ucast (m (r + 1))) = unat r + unat (m (r + 1))"
    using lt tab e unat_u8_lt [of "m (r + 1)"]
    by (simp add: unat_word_ariths unat_u8_u32)
  ultimately show ?thesis using c lt e by (simp add: word_less_nat_alt)
qed

lemma next_no_terminator:
  assumes nz: "prev \<noteq> 0"
    and nt: "\<forall>q. prev + (ucast (m (prev + 1)) + 2) \<le> q \<and> q < start + len
               \<longrightarrow> m (q - 1) \<noteq> 0 \<or> m (q - 2) \<noteq> 0"
  shows "smbios_next m start len prev = 0"
proof -
  let ?e = "start + len"
  let ?p0 = "prev + (ucast (m (prev + 1)) + 2)"
  have "\<not> fst (smbios_scan m ?e ?p0) < ?e"
    using scan_stop [of m ?e ?p0] scan_cursor [of ?p0 m ?e] nt by blast
  with nz show ?thesis
    unfolding smbios_next_def smbios_next_tr_def Let_def
    by (auto simp: check_fst split: prod.splits)
qed

text \<open>
  C1, as amended. For a table that ends at least 256 bytes below the top of the 32-bit
  address space, and a previous position that is null or not beyond the end of the
  table (as every position the iterator returns is): every byte \<open>smbios_next\<close> reads
  lies strictly before \<open>base + length\<close>; the terminator scan, from whatever position \<open>p\<close>
  it starts, stops at \<open>base + length\<close> at the latest; a result other than \<open>NULL\<close> has its
  position, its 4-byte header and its declared length strictly before \<open>base + length\<close>;
  and when no two consecutive NUL bytes are found before the end, the result is \<open>NULL\<close>.
\<close>

theorem smbios_next_in_bounds:
  assumes "unat start + unat len + 256 \<le> 2 ^ 32"
    and "unat prev \<le> unat start + unat len"
  shows "(\<forall>a \<in> set (snd (smbios_next_tr m start len prev)). unat a < unat start + unat len)
       \<and> (fst (smbios_scan m (start + len) p) = p
            \<or> fst (smbios_scan m (start + len) p) \<le> start + len)
       \<and> (smbios_next m start len prev \<noteq> 0 \<longrightarrow>
            unat (smbios_next m start len prev) < unat start + unat len
          \<and> unat (smbios_next m start len prev) + 4 < unat start + unat len
          \<and> unat (smbios_next m start len prev)
              + unat (m (smbios_next m start len prev + 1)) < unat start + unat len)
       \<and> (prev \<noteq> 0 \<and> (\<forall>q. prev + (ucast (m (prev + 1)) + 2) \<le> q \<and> q < start + len
               \<longrightarrow> m (q - 1) \<noteq> 0 \<or> m (q - 2) \<noteq> 0)
            \<longrightarrow> smbios_next m start len prev = 0)"
  using assms next_reads_bounded [of start len prev _ m] scan_cursor [of p m "start + len"]
    next_result_bounded [of start len m prev] next_no_terminator [of prev m start len]
  by blast

theorem smbios_next_in_bounds_witness:
  "unat (0x1000 :: u32) + unat (13 :: u32) + 256 \<le> 2 ^ 32
   \<and> unat (0x1000 :: u32) \<le> unat (0x1000 :: u32) + unat (13 :: u32)
   \<and> smbios_next (load 0x1000 two_structures) 0x1000 13 0x1000 = 0x1007
   \<and> unat (0x1007 :: u32) + unat (load 0x1000 two_structures (0x1007 + 1))
        < unat (0x1000 :: u32) + unat (13 :: u32)"
proof -
  have h1: "unat (0x1000 :: u32) + unat (13 :: u32) + 256 \<le> 2 ^ 32" by simp
  have h2: "unat (0x1000 :: u32) \<le> unat (0x1000 :: u32) + unat (13 :: u32)" by simp
  have r: "smbios_next (load 0x1000 two_structures) 0x1000 13 0x1000 = 0x1007"
    by (simp add: smbios_next_def smbios_next_tr_def smbios_check_def smbios_scan.simps
        load_def two_structures_def)
  from smbios_next_in_bounds [OF h1 h2, of "load 0x1000 two_structures" 0] r
  show ?thesis by simp
qed

text \<open>
  C1 as stated fails where the pointer arithmetic wraps: for a one-byte table at
  \<open>0xFFFFFFFE\<close> in zeroed memory, \<open>base + 4\<close> wraps to 2 and passes the test against
  \<open>base + length\<close>, so the first call reads the length byte at \<open>base + length\<close> itself
  and returns the base, whose header does not lie before \<open>base + length\<close>.
\<close>

theorem smbios_next_wraps_at_top:
  "smbios_next (load 0 []) 0xFFFFFFFE 1 0 = 0xFFFFFFFE
   \<and> snd (smbios_next_tr (load 0 []) 0xFFFFFFFE 1 0) = [0xFFFFFFFE + 1]
   \<and> \<not> unat (0xFFFFFFFE + 1 :: u32) < unat (0xFFFFFFFE :: u32) + unat (1 :: u32)
   \<and> \<not> unat (0xFFFFFFFE :: u32) + 4 < unat (0xFFFFFFFE :: u32) + unat (1 :: u32)"
  by (simp add: smbios_next_def smbios_next_tr_def smbios_check_def load_def)




subsection \<open>SMBIOS table lookup\<close>

lemma ucast_roundtrip_iff:
  "(ucast (ucast (x :: u64) :: u32) :: u64) = x \<longleftrightarrow> unat x < 2 ^ 32"
proof -
  have "unat (ucast (ucast x :: u32) :: u64) = take_bit 32 (unat x)"
    by (simp add: unsigned_ucast_eq unsigned_take_bit_eq)
  then show ?thesis
    by (simp add: word_unat_eq_iff take_bit_nat_eq_self_iff)
qed

lemma unat_ucast_64_32: "unat (x :: u64) < 2 ^ 32 \<Longrightarrow> unat (ucast x :: u32) = unat x"
  by (simp add: unsigned_ucast_eq take_bit_nat_eq_self)

text \<open>
  C8. With a 3.0 entry point registered whose 64-bit structure-table address is below
  \<open>2^32\<close>, \<open>smbios_get_tables\<close> returns that address, unchanged by the truncation, and
  the entry point's maximum size. Otherwise, with a 2.1 entry point registered, it
  returns that entry point's structure-table address and length. Otherwise it returns
  \<open>NULL\<close>.
\<close>

theorem smbios_get_tables_cases:
  "(SMBios30Addr s \<noteq> 0 \<and> unat (rd64 (memory s) (SMBios30Addr s + 16)) < 2 ^ 32 \<longrightarrow>
      smbios_get_tables s l
        = (ucast (rd64 (memory s) (SMBios30Addr s + 16)), rd32 (memory s) (SMBios30Addr s + 12))
      \<and> unat (fst (smbios_get_tables s l)) = unat (rd64 (memory s) (SMBios30Addr s + 16)))
   \<and> ((SMBios30Addr s = 0 \<or> \<not> unat (rd64 (memory s) (SMBios30Addr s + 16)) < 2 ^ 32)
        \<and> SMBios21Addr s \<noteq> 0 \<longrightarrow>
      smbios_get_tables s l
        = (rd32 (memory s) (SMBios21Addr s + 24), ucast (rd16 (memory s) (SMBios21Addr s + 22))))
   \<and> ((SMBios30Addr s = 0 \<or> \<not> unat (rd64 (memory s) (SMBios30Addr s + 16)) < 2 ^ 32)
        \<and> SMBios21Addr s = 0 \<longrightarrow>
      fst (smbios_get_tables s l) = 0)"
  by (auto simp: smbios_get_tables_def Let_def ucast_roundtrip_iff unat_ucast_64_32)

theorem smbios_get_tables_cases_witness:
  "smbios_get_tables (ex_both smbios30_ep 0x2FC0 0x2FE0) 0 = (0x3000, 29)
   \<and> smbios_get_tables (ex_both smbios30_ep_high 0x2FC0 0x2FE0) 0 = (0x3000, 29)
   \<and> fst (smbios_get_tables (ex_both smbios30_ep_high 0x2FC0 0) 0) = 0"
proof -
  let ?m1 = "smbios_image smbios30_ep smbios21_ep_v26"
  let ?m2 = "smbios_image smbios30_ep_high smbios21_ep_v26"
  have v: "rd64 ?m1 0x2FD0 = 0x3000" "rd32 ?m1 0x2FCC = 29"
    "rd64 ?m2 0x2FD0 = 0x100003000" "rd32 ?m2 0x2FF8 = 0x3000"
    "rd16 ?m2 0x2FF6 = 29"
    by code_simp+
  from smbios_get_tables_cases [of "ex_both smbios30_ep 0x2FC0 0x2FE0" 0]
    smbios_get_tables_cases [of "ex_both smbios30_ep_high 0x2FC0 0x2FE0" 0]
    smbios_get_tables_cases [of "ex_both smbios30_ep_high 0x2FC0 0" 0]
  show ?thesis by (simp add: ex_both_def boot_def v)
qed

subsection \<open>The ACPI reset register\<close>

lemma set_rejected: "reg_rejected (memory s) reg \<Longrightarrow> acpi_set_reset_reg s reg v = s"
  by (auto simp: reg_rejected_def acpi_set_reset_reg_def read_generic_address_def)

lemma set_rejected_all:
  "\<forall>c \<in> set cs. reg_rejected (memory s) (fst c) \<Longrightarrow> acpi_set_reset_regs s cs = s"
  by (induction cs arbitrary: s) (simp_all add: set_rejected)

lemma u8_le_2: "\<not> (x :: u8) > 2 \<Longrightarrow> x = 0 \<or> x = 1 \<or> x = 2"
  by unat_arith

lemma reboot_after_set:
  "\<not> reg_rejected (memory s) reg \<Longrightarrow>
     acpi_reboot (acpi_set_reset_reg s reg v) =
       (if memory s reg = 0 then [Writeb (ucast (rd64 (memory s) (reg + 4))) v]
        else if memory s reg = 1 then [Outb (ucast (rd64 (memory s) (reg + 4))) v]
        else [Pci_config_writeb (acpi_ga_to_bdf (rd64 (memory s) (reg + 4)))
                (ucast (rd64 (memory s) (reg + 4) AND 0xffff)) v])"
  using u8_le_2 [of "memory s reg"]
  by (auto simp: reg_rejected_def acpi_set_reset_reg_def read_generic_address_def
      acpi_reboot_def Let_def)

lemma reboot_shape:
  "acpi_reboot s = []
   \<or> (address_space_id (acpi_reset_reg s) = 0
        \<and> acpi_reboot s = [Writeb (ucast (ga_address (acpi_reset_reg s))) (acpi_reset_val s)])
   \<or> (address_space_id (acpi_reset_reg s) = 1
        \<and> acpi_reboot s = [Outb (ucast (ga_address (acpi_reset_reg s))) (acpi_reset_val s)])
   \<or> (address_space_id (acpi_reset_reg s) = 2
        \<and> acpi_reboot s = [Pci_config_writeb (acpi_ga_to_bdf (ga_address (acpi_reset_reg s)))
               (ucast (ga_address (acpi_reset_reg s) AND 0xffff)) (acpi_reset_val s)])"
  by (simp add: acpi_reboot_def Let_def)

text \<open>
  C9. \<open>acpi_set_reset_reg\<close> leaves the state as it is for a register that is null, has
  an address-space id above 2, a bit width other than 8 or a bit offset other than 0.
  So after power-on and any sequence of rejected calls \<open>acpi_reboot\<close> writes nothing.
  In every state \<open>acpi_reboot\<close> writes nothing or makes exactly one write, through
  memory, an I/O port or PCI configuration space for the stored id 0, 1 or 2; after an
  accepted call it makes that one write, with the value of the call.
\<close>

theorem acpi_reset_guarded:
  "(reg_rejected (memory s) reg \<longrightarrow> acpi_set_reset_reg s reg v = s)
   \<and> ((\<forall>c \<in> set cs. reg_rejected m (fst c)) \<longrightarrow>
        acpi_reboot (acpi_set_reset_regs (boot m h) cs) = [])
   \<and> (acpi_reboot s = []
      \<or> (address_space_id (acpi_reset_reg s) = 0
           \<and> acpi_reboot s = [Writeb (ucast (ga_address (acpi_reset_reg s))) (acpi_reset_val s)])
      \<or> (address_space_id (acpi_reset_reg s) = 1
           \<and> acpi_reboot s = [Outb (ucast (ga_address (acpi_reset_reg s))) (acpi_reset_val s)])
      \<or> (address_space_id (acpi_reset_reg s) = 2
           \<and> acpi_reboot s = [Pci_config_writeb (acpi_ga_to_bdf (ga_address (acpi_reset_reg s)))
                  (ucast (ga_address (acpi_reset_reg s) AND 0xffff)) (acpi_reset_val s)]))
   \<and> (\<not> reg_rejected (memory s) reg \<longrightarrow>
        acpi_reboot (acpi_set_reset_reg s reg v) =
          (if memory s reg = 0 then [Writeb (ucast (rd64 (memory s) (reg + 4))) v]
           else if memory s reg = 1 then [Outb (ucast (rd64 (memory s) (reg + 4))) v]
           else [Pci_config_writeb (acpi_ga_to_bdf (rd64 (memory s) (reg + 4)))
                   (ucast (rd64 (memory s) (reg + 4) AND 0xffff)) v]))"
proof -
  have "acpi_reboot (acpi_set_reset_regs (boot m h) cs) = []"
    if "\<forall>c \<in> set cs. reg_rejected m (fst c)"
    using set_rejected_all [of cs "boot m h"] that
    by (simp add: boot_def acpi_reboot_def no_reg_def)
  then show ?thesis
    using set_rejected [of s reg v] reboot_shape [of s] reboot_after_set [of s reg v]
    by blast
qed

theorem acpi_reset_guarded_witness:
  "acpi_set_reset_reg (boot (load 0x5000 reset_reg_wide) ()) 0x5000 6
     = boot (load 0x5000 reset_reg_wide) ()
   \<and> acpi_reboot (acpi_set_reset_regs (boot (load 0x5000 reset_reg_wide) ()) [(0, 6), (0x5000, 6)]) = []
   \<and> acpi_reboot (acpi_set_reset_reg (boot (load 0x5000 reset_reg_io) ()) 0x5000 6) = [Outb 0xCF9 6]"
proof -
  have r: "reg_rejected (load 0x5000 reset_reg_wide) 0x5000" "reg_rejected (load 0x5000 reset_reg_wide) 0"
    "\<not> reg_rejected (load 0x5000 reset_reg_io) 0x5000"
    by (simp_all add: reg_rejected_def load_def reset_reg_wide_def reset_reg_io_def)
  have v: "load 0x5000 reset_reg_io 0x5000 = 1" "rd64 (load 0x5000 reset_reg_io) 0x5004 = 0xCF9"
    by code_simp+
  from acpi_reset_guarded [of "boot (load 0x5000 reset_reg_wide) ()" "0x5000" 6
      "[(0, 6), (0x5000, 6)]" "load 0x5000 reset_reg_wide" "()"]
    acpi_reset_guarded [of "boot (load 0x5000 reset_reg_io) ()" "0x5000" 6 "[]" "load 0x5000 reset_reg_io" "()"]
    r
  show ?thesis by (simp add: boot_def v)
qed

subsection \<open>Registration\<close>

lemma copy_pir_registered: "PirAddr s \<noteq> 0 \<Longrightarrow> copy_pir A s pos = s"
  by (simp add: copy_pir_def Let_def)

lemma copy_acpi_rsdp_registered: "RsdpAddr s \<noteq> 0 \<Longrightarrow> copy_acpi_rsdp A s pos = s"
  by (simp add: copy_acpi_rsdp_def)

lemma copy_smbios_21_registered: "SMBios21Addr s \<noteq> 0 \<Longrightarrow> copy_smbios_21 A s pos = s"
  by (simp add: copy_smbios_21_def)

lemma copy_smbios_30_registered: "SMBios30Addr s \<noteq> 0 \<Longrightarrow> copy_smbios_30 A s pos = s"
  by (simp add: copy_smbios_30_def)

text \<open>
  C2, as amended. For \<open>copy_pir\<close>, \<open>copy_acpi_rsdp\<close>, \<open>copy_smbios_21\<close> and
  \<open>copy_smbios_30\<close>: after a call that registered a table, a second call with any
  candidate leaves the whole state as it is, so nothing is allocated or copied and the
  first relocated copy is unchanged. (\<open>copy_mptable\<close> keeps no registration and is not
  covered.)
\<close>

theorem copy_twice:
  "(PirAddr (copy_pir A s p1) \<noteq> 0 \<longrightarrow>
      copy_pir A (copy_pir A s p1) p2 = copy_pir A s p1)
   \<and> (RsdpAddr (copy_acpi_rsdp A s p1) \<noteq> 0 \<longrightarrow>
      copy_acpi_rsdp A (copy_acpi_rsdp A s p1) p2 = copy_acpi_rsdp A s p1)
   \<and> (SMBios21Addr (copy_smbios_21 A s p1) \<noteq> 0 \<longrightarrow>
      copy_smbios_21 A (copy_smbios_21 A s p1) p2 = copy_smbios_21 A s p1)
   \<and> (SMBios30Addr (copy_smbios_30 A s p1) \<noteq> 0 \<longrightarrow>
      copy_smbios_30 A (copy_smbios_30 A s p1) p2 = copy_smbios_30 A s p1)"
  by (simp add: copy_pir_registered copy_acpi_rsdp_registered copy_smbios_21_registered
      copy_smbios_30_registered)

theorem copy_twice_witness:
  "PirAddr (copy_pir bump_pools ex_tables 0xF0000) = 0xE0000
   \<and> copy_pir bump_pools (copy_pir bump_pools ex_tables 0xF0000) 0xF0000
       = copy_pir bump_pools ex_tables 0xF0000
   \<and> RsdpAddr (copy_acpi_rsdp bump_pools ex_tables 0xF0020) = 0xE0000
   \<and> copy_acpi_rsdp bump_pools (copy_acpi_rsdp bump_pools ex_tables 0xF0020) 0xF0020
       = copy_acpi_rsdp bump_pools ex_tables 0xF0020
   \<and> SMBios21Addr (copy_smbios_21 bump_pools ex_tables 0xF0040) = 0xE0000
   \<and> copy_smbios_21 bump_pools (copy_smbios_21 bump_pools ex_tables 0xF0040) 0xF0040
       = copy_smbios_21 bump_pools ex_tables 0xF0040
   \<and> SMBios30Addr (copy_smbios_30 bump_pools ex_tables 0xF0060) = 0xE0000
   \<and> copy_smbios_30 bump_pools (copy_smbios_30 bump_pools ex_tables 0xF0060) 0xF0060
       = copy_smbios_30 bump_pools ex_tables 0xF0060"
proof -
  have e: "PirAddr (copy_pir bump_pools ex_tables 0xF0000) = 0xE0000"
    "RsdpAddr (copy_acpi_rsdp bump_pools ex_tables 0xF0020) = 0xE0000"
    "SMBios21Addr (copy_smbios_21 bump_pools ex_tables 0xF0040) = 0xE0000"
    "SMBios30Addr (copy_smbios_30 bump_pools ex_tables 0xF0060) = 0xE0000"
    by code_simp+
  from copy_twice [of bump_pools ex_tables "0xF0000" "0xF0000"]
    copy_twice [of bump_pools ex_tables "0xF0020" "0xF0020"]
    copy_twice [of bump_pools ex_tables "0xF0040" "0xF0040"]
    copy_twice [of bump_pools ex_tables "0xF0060" "0xF0060"]
  show ?thesis by (simp add: e)
qed

text \<open>
  C2 as stated fails for \<open>copy_mptable\<close>, which has no registration slot: called twice
  with the same valid floating pointer it allocates a second block of 24 bytes behind
  the first.
\<close>

theorem copy_mptable_twice:
  "heap (copy_mptable bump_pools 0x8000 ex_mptable 0xF0000) = 0xE0018
   \<and> heap (copy_mptable bump_pools 0x8000
             (copy_mptable bump_pools 0x8000 ex_mptable 0xF0000) 0xF0000) = 0xE0030
   \<and> copy_mptable bump_pools 0x8000 (copy_mptable bump_pools 0x8000 ex_mptable 0xF0000) 0xF0000
       \<noteq> copy_mptable bump_pools 0x8000 ex_mptable 0xF0000"
proof -
  have h1: "heap (copy_mptable bump_pools 0x8000 ex_mptable 0xF0000) = 0xE0018"
    by code_simp
  have h2: "heap (copy_mptable bump_pools 0x8000
             (copy_mptable bump_pools 0x8000 ex_mptable 0xF0000) 0xF0000) = 0xE0030"
    by code_simp
  have "copy_mptable bump_pools 0x8000 (copy_mptable bump_pools 0x8000 ex_mptable 0xF0000) 0xF0000
       \<noteq> copy_mptable bump_pools 0x8000 ex_mptable 0xF0000"
  proof
    assume "copy_mptable bump_pools 0x8000 (copy_mptable bump_pools 0x8000 ex_mptable 0xF0000) 0xF0000
       = copy_mptable bump_pools 0x8000 ex_mptable 0xF0000"
    then have "(0xE0030 :: u32) = 0xE0018" using h1 h2 by simp
    then show False by simp
  qed
  with h1 h2 show ?thesis by simp
qed

subsection \<open>RSDP validation\<close>

lemma load_at:
  "k < 2 ^ 32 \<Longrightarrow> length xs < 2 ^ 32 \<Longrightarrow>
     load b xs (b + of_nat k) = (if k < length xs then xs ! k else 0)"
  by (simp add: load_def unat_of_nat take_bit_nat_eq_self word_less_nat_alt)

lemma sum_bytes_load_gen:
  assumes len: "length xs < 2 ^ 32"
  shows "k + n \<le> 2 ^ 32 \<Longrightarrow>
     sum_bytes (load b xs) (b + of_nat k) n = sum_list (take n (drop k xs))"
proof (induction n arbitrary: k)
  case 0
  then show ?case by simp
next
  case (Suc n)
  have a: "b + of_nat k + 1 = b + of_nat (Suc k)" by simp
  from Suc.prems have k: "k < 2 ^ 32" and kn: "Suc k + n \<le> 2 ^ 32" by simp_all
  show ?case
  proof (cases "k < length xs")
    case True
    then have "take (Suc n) (drop k xs) = xs ! k # take n (drop (Suc k) xs)"
      by (simp add: take_Suc Cons_nth_drop_Suc [symmetric] del: drop_Suc_Cons)
    then show ?thesis
      using Suc.IH [OF kn] load_at [OF k len, of b] True
      by (simp only: sum_bytes.simps a) simp
  next
    case False
    then show ?thesis
      using Suc.IH [OF kn] load_at [OF k len, of b]
      by (simp only: sum_bytes.simps a) simp
  qed
qed

lemma checksum_load:
  assumes "length xs \<le> unat len"
  shows "checksum (load b xs) b len = sum_list xs"
proof -
  have "unat len \<le> 2 ^ 32" using unsigned_less [of len, where ?'a = nat] by simp
  moreover have "length xs < 2 ^ 32"
    using assms unsigned_less [of len, where ?'a = nat] by simp
  ultimately show ?thesis
    using sum_bytes_load_gen [of xs 0 "unat len" b] assms by (simp add: checksum_def)
qed

lemma sint_neg_iff: "sint (w :: u32) < 0 \<longleftrightarrow> \<not> unat w < 2 ^ 31"
proof -
  have b: "0 \<le> uint w" "uint w < 2 ^ 32"
    using unsigned_less [of w, where ?'a = int] by simp_all
  have "sint w < 0 \<longleftrightarrow> bit w 31" using bit_last_iff [of w] by simp
  also have "\<dots> \<longleftrightarrow> bit (uint w) 31" by (simp add: bit_uint_iff)
  also have "\<dots> \<longleftrightarrow> odd (uint w div 2 ^ 31)" by (simp only: bit_iff_odd)
  also have "\<dots> \<longleftrightarrow> 2 ^ 31 \<le> uint w"
  proof -
    have "uint w div 2 ^ 31 = 0 \<or> uint w div 2 ^ 31 = 1" using b by auto
    moreover have "uint w div 2 ^ 31 = 0 \<longleftrightarrow> uint w < 2 ^ 31" using b by auto
    ultimately show ?thesis by auto
  qed
  also have "\<dots> \<longleftrightarrow> \<not> unat w < 2 ^ 31"
  proof -
    have "uint w = int (unat w)" by simp
    moreover have "(2 ^ 31 \<le> int n) = (2 ^ 31 \<le> n)" for n
      by (metis of_nat_le_iff of_nat_numeral of_nat_power)
    ultimately show ?thesis by (simp only: not_less)
  qed
  finally show ?thesis .
qed

lemma woi_sint: "word_of_int (sint (w :: u32)) = w"
  by simp

lemma rsdp_length_unbounded:
  "get_acpi_rsdp_length m pos (- 1) =
     (if rd64 m pos = RSDP_SIGNATURE \<and> checksum m pos 20 = 0
      then (if m (pos + 15) > 1
            then (if checksum m pos (rd32 m (pos + 20)) = 0
                  then sint (rd32 m (pos + 20)) else - 1)
            else 20)
      else - 1)"
  by (simp add: get_acpi_rsdp_length_def Let_def)

lemma copy_acpi_rsdp_iff:
  assumes "RsdpAddr s = 0"
  shows "(RsdpAddr (copy_acpi_rsdp A s pos) \<noteq> 0) =
          (rd64 (memory s) pos = RSDP_SIGNATURE \<and> checksum (memory s) pos 20 = 0
           \<and> (memory s (pos + 15) > 1 \<longrightarrow>
                 checksum (memory s) pos (rd32 (memory s) (pos + 20)) = 0
                 \<and> unat (rd32 (memory s) (pos + 20)) < 2 ^ 31)
           \<and> fst (malloc_fseg A (heap s)
                 (if memory s (pos + 15) > 1 then rd32 (memory s) (pos + 20) else 20)) \<noteq> 0)"
  using assms sint_neg_iff [of "rd32 (memory s) (pos + 20)"]
  by (auto simp: copy_acpi_rsdp_def rsdp_length_unbounded Let_def copy_fseg_table_def not_less
      split: prod.splits if_splits)

text \<open>
  C10, as amended. \<open>copy_acpi_rsdp\<close> passes the bound \<open>2^32 - 1\<close>, so neither length
  guard of \<open>get_acpi_rsdp_length\<close> rejects. With an RSDP already registered the call
  changes nothing. Otherwise the candidate is registered if and only if its signature
  matches, the checksum of its first 20 bytes is 0, for a revision above 1 the checksum
  over its declared length is 0 and that length is below \<open>2^31\<close> (a greater one turns
  negative as the returned \<open>int\<close>), and the pool supplies a block of that length.
\<close>

theorem copy_acpi_rsdp_registers:
  "(RsdpAddr s \<noteq> 0 \<longrightarrow> copy_acpi_rsdp A s pos = s)
   \<and> (RsdpAddr s = 0 \<longrightarrow>
        (RsdpAddr (copy_acpi_rsdp A s pos) \<noteq> 0) =
          (rd64 (memory s) pos = RSDP_SIGNATURE \<and> checksum (memory s) pos 20 = 0
           \<and> (memory s (pos + 15) > 1 \<longrightarrow>
                 checksum (memory s) pos (rd32 (memory s) (pos + 20)) = 0
                 \<and> unat (rd32 (memory s) (pos + 20)) < 2 ^ 31)
           \<and> fst (malloc_fseg A (heap s)
                 (if memory s (pos + 15) > 1 then rd32 (memory s) (pos + 20) else 20)) \<noteq> 0))
   \<and> get_acpi_rsdp_length (memory s) pos (- 1) =
        (if rd64 (memory s) pos = RSDP_SIGNATURE \<and> checksum (memory s) pos 20 = 0
         then (if memory s (pos + 15) > 1
               then (if checksum (memory s) pos (rd32 (memory s) (pos + 20)) = 0
                     then sint (rd32 (memory s) (pos + 20)) else - 1)
               else 20)
         else - 1)"
  using copy_acpi_rsdp_iff [of s A pos] rsdp_length_unbounded [of "memory s" pos]
  by (simp add: copy_acpi_rsdp_def)

theorem copy_acpi_rsdp_registers_witness:
  "RsdpAddr ex_tables = 0
   \<and> RsdpAddr (copy_acpi_rsdp bump_pools ex_tables 0xF0020) = 0xE0000
   \<and> rd64 (memory ex_tables) 0xF0020 = RSDP_SIGNATURE
   \<and> checksum (memory ex_tables) 0xF0020 20 = 0
   \<and> get_acpi_rsdp_length (memory ex_tables) 0xF0020 (- 1) = 20"
proof -
  have h: "RsdpAddr ex_tables = 0" by (simp add: ex_tables_def boot_def)
  have r: "RsdpAddr (copy_acpi_rsdp bump_pools ex_tables 0xF0020) = 0xE0000" by code_simp
  have b: "\<not> memory ex_tables (0xF0020 + 15) > 1" by code_simp
  from copy_acpi_rsdp_registers [of ex_tables bump_pools "0xF0020"] h r b
  show ?thesis by simp
qed

text \<open>
  C10 as stated fails for a large declared length: an RSDP of revision 2 that declares
  \<open>0x80000000\<close> bytes, with the signature and both checksums right and a pool that would
  supply the block, is not registered.
\<close>

theorem copy_acpi_rsdp_huge_rejected:
  "RsdpAddr ex_huge = 0
   \<and> rd64 (memory ex_huge) 0x1000 = RSDP_SIGNATURE
   \<and> checksum (memory ex_huge) 0x1000 20 = 0
   \<and> memory ex_huge (0x1000 + 15) > 1
   \<and> rd32 (memory ex_huge) (0x1000 + 20) = 0x80000000
   \<and> checksum (memory ex_huge) 0x1000 (rd32 (memory ex_huge) (0x1000 + 20)) = 0
   \<and> fst (malloc_fseg bump_pools (heap ex_huge) (rd32 (memory ex_huge) (0x1000 + 20))) = 0xE0000
   \<and> RsdpAddr (copy_acpi_rsdp bump_pools ex_huge 0x1000) = 0"
proof -
  let ?m = "load 0x1000 rsdp_huge"
  have m: "memory ex_huge = ?m" and h: "RsdpAddr ex_huge = 0" and hp: "heap ex_huge = 0xE0000"
    by (simp_all add: ex_huge_def boot_def)
  have v: "rd64 ?m 0x1000 = RSDP_SIGNATURE" "checksum ?m 0x1000 20 = 0" "?m 0x100F > 1"
    "rd32 ?m 0x1014 = 0x80000000"
    by code_simp+
  have "length rsdp_huge \<le> unat (0x80000000 :: u32)" by (simp add: rsdp_huge_def)
  then have "checksum ?m 0x1000 0x80000000 = sum_list rsdp_huge" by (rule checksum_load)
  also have "\<dots> = 0" by (simp add: rsdp_huge_def)
  finally have c: "checksum ?m 0x1000 0x80000000 = 0" .
  have "\<not> unat (0x80000000 :: u32) < 2 ^ 31" by simp
  with copy_acpi_rsdp_iff [OF h, of bump_pools "0x1000"] v c
  have "RsdpAddr (copy_acpi_rsdp bump_pools ex_huge 0x1000) = 0" by (simp add: m)
  with v c h show ?thesis by (simp add: m hp bump_pools_def bump_def)
qed

subsection \<open>ACPI table lookup\<close>

lemma pos_unat:
  assumes "unat (x :: u32) + 36 + k * i < 2 ^ 32" "k < 2 ^ 32"
  shows "unat (x + 36 + of_nat k * of_nat i) = unat x + 36 + k * i"
proof -
  have "x + 36 + of_nat k * of_nat i = x + of_nat (36 + k * i)" by simp
  then show ?thesis using unat_add_small [of x "36 + k * i"] assms by (simp add: add.assoc)
qed

lemma ceil_div_bounds:
  fixes L :: nat
  assumes "0 < k"
  shows "k * ((L - 36 + (k - 1)) div k) \<le> L - 36 + (k - 1)" "L - 36 \<le> k * ((L - 36 + (k - 1)) div k)"
proof -
  show "k * ((L - 36 + (k - 1)) div k) \<le> L - 36 + (k - 1)" by simp
  have "L - 36 + (k - 1) < k * ((L - 36 + (k - 1)) div k) + k"
    using assms dividend_less_times_div [of k "L - 36 + (k - 1)"] by (simp add: ac_simps)
  then show "L - 36 \<le> k * ((L - 36 + (k - 1)) div k)" using assms by simp
qed

lemma xsdt_search_find:
  assumes fit: "table_fits x len"
    and n: "n = (unat len - 36 + 7) div 8"
  shows "i \<le> n \<Longrightarrow> xsdt_search m sg x (x + len) (of_nat i) =
     Some (case find (xsdt_match m sg) (drop i (map (\<lambda>i. rd64 m (x + 36 + 8 * of_nat i)) [0 ..< n])) of
             Some ent \<Rightarrow> ucast ent | None \<Rightarrow> 0)"
proof -
  have nb: "8 * n \<le> unat len - 36 + 7" "unat len - 36 \<le> 8 * n"
    using ceil_div_bounds [of 8 "unat len"] n by simp_all
  show "i \<le> n \<Longrightarrow> ?thesis"
proof (induction "n - i" arbitrary: i)
  case 0
  then have i: "i = n" by simp
  from fit have e: "unat (x + len) = unat x + unat len"
    by (simp add: table_fits_def unat_word_ariths)
  have "unat x + 36 + 8 * n < 2 ^ 32" using fit nb unfolding table_fits_def by arith
  from pos_unat [OF this] have p: "unat (x + 36 + 8 * of_nat n) = unat x + 36 + 8 * n" by simp
  have "\<not> x + 36 + 8 * of_nat n < x + len"
    using p e nb unfolding word_less_nat_alt by arith
  then show ?case using i by (subst xsdt_search.simps) simp
next
  case (Suc k)
  then have lt: "i < n" by simp
  from fit have e: "unat (x + len) = unat x + unat len"
    by (simp add: table_fits_def unat_word_ariths)
  have "unat x + 36 + 8 * i < 2 ^ 32" using fit nb lt unfolding table_fits_def by arith
  from pos_unat [OF this] have p: "unat (x + 36 + 8 * of_nat i) = unat x + 36 + 8 * i" by simp
  have c: "x + 36 + 8 * of_nat i < x + len"
    using p e nb lt unfolding word_less_nat_alt by arith
  have d: "drop i (map (\<lambda>i. rd64 m (x + 36 + 8 * of_nat i)) [0 ..< n])
        = rd64 m (x + 36 + 8 * of_nat i) # drop (Suc i) (map (\<lambda>i. rd64 m (x + 36 + 8 * of_nat i)) [0 ..< n])"
    using lt by (simp add: Cons_nth_drop_Suc [symmetric])
  have s: "(of_nat i :: u32) + 1 = of_nat (Suc i)" by simp
  from Suc(1) [of "Suc i"] Suc(2) lt
  have ih: "xsdt_search m sg x (x + len) (of_nat (Suc i)) =
     Some (case find (xsdt_match m sg) (drop (Suc i) (map (\<lambda>i. rd64 m (x + 36 + 8 * of_nat i)) [0 ..< n])) of
             Some ent \<Rightarrow> ucast ent | None \<Rightarrow> 0)"
    by simp
  show ?case
    by (subst xsdt_search.simps, simp only: c d s ih if_True)
       (auto simp: xsdt_match_def not_le)
qed
qed


lemma rsdt_search_find:
  assumes fit: "table_fits x len"
    and n: "n = (unat len - 36 + 3) div 4"
  shows "i \<le> n \<Longrightarrow> rsdt_search m sg x (x + len) (of_nat i) =
     Some (case find (rsdt_match m sg) (drop i (map (\<lambda>i. rd32 m (x + 36 + 4 * of_nat i)) [0 ..< n])) of
             Some ent \<Rightarrow> ent | None \<Rightarrow> 0)"
proof -
  have nb: "4 * n \<le> unat len - 36 + 3" "unat len - 36 \<le> 4 * n"
    using ceil_div_bounds [of 4 "unat len"] n by simp_all
  from fit have e: "unat (x + len) = unat x + unat len"
    by (simp add: table_fits_def unat_word_ariths)
  show "i \<le> n \<Longrightarrow> ?thesis"
  proof (induction "n - i" arbitrary: i)
    case 0
    then have i: "i = n" by simp
    have "unat x + 36 + 4 * n < 2 ^ 32" using fit nb unfolding table_fits_def by arith
    from pos_unat [OF this] have p: "unat (x + 36 + 4 * of_nat n) = unat x + 36 + 4 * n" by simp
    have "\<not> x + 36 + 4 * of_nat n < x + len"
      using p e nb unfolding word_less_nat_alt by arith
    then show ?case using i by (subst rsdt_search.simps) simp
  next
    case (Suc k)
    then have lt: "i < n" by simp
    have "unat x + 36 + 4 * i < 2 ^ 32" using fit nb lt unfolding table_fits_def by arith
    from pos_unat [OF this] have p: "unat (x + 36 + 4 * of_nat i) = unat x + 36 + 4 * i" by simp
    have c: "x + 36 + 4 * of_nat i < x + len"
      using p e nb lt unfolding word_less_nat_alt by arith
    have d: "drop i (map (\<lambda>i. rd32 m (x + 36 + 4 * of_nat i)) [0 ..< n])
          = rd32 m (x + 36 + 4 * of_nat i) # drop (Suc i) (map (\<lambda>i. rd32 m (x + 36 + 4 * of_nat i)) [0 ..< n])"
      using lt by (simp add: Cons_nth_drop_Suc [symmetric])
    have s: "(of_nat i :: u32) + 1 = of_nat (Suc i)" by simp
    from Suc(1) [of "Suc i"] Suc(2) lt
    have ih: "rsdt_search m sg x (x + len) (of_nat (Suc i)) =
       Some (case find (rsdt_match m sg) (drop (Suc i) (map (\<lambda>i. rd32 m (x + 36 + 4 * of_nat i)) [0 ..< n])) of
               Some ent \<Rightarrow> ent | None \<Rightarrow> 0)"
      by simp
    show ?case
      by (subst rsdt_search.simps, simp only: c d s ih if_True)
         (auto simp: rsdt_match_def)
  qed
qed

lemma xsdt_search_entries:
  "table_fits x (rd32 m (x + 4)) \<Longrightarrow>
     xsdt_search m sg x (x + rd32 m (x + 4)) 0 =
       Some (case find (xsdt_match m sg) (xsdt_walked m x) of Some ent \<Rightarrow> ucast ent | None \<Rightarrow> 0)"
  using xsdt_search_find [of x "rd32 m (x + 4)" _ 0 m sg] by (simp add: xsdt_walked_def)

lemma rsdt_search_entries:
  "table_fits x (rd32 m (x + 4)) \<Longrightarrow>
     rsdt_search m sg x (x + rd32 m (x + 4)) 0 =
       Some (case find (rsdt_match m sg) (rsdt_walked m x) of Some ent \<Rightarrow> ent | None \<Rightarrow> 0)"
  using rsdt_search_find [of x "rd32 m (x + 4)" _ 0 m sg] by (simp add: rsdt_walked_def)

lemma find_xsdt_match_nz:
  "find (xsdt_match m sg) es = Some ent \<Longrightarrow> (ucast ent :: u32) \<noteq> 0"
  by (auto simp: find_Some_iff xsdt_match_def)

text \<open>\<open>find_acpi_table\<close> in the vocabulary of the lookup.\<close>

lemma find_acpi_table_unfold:
  "find_acpi_table s sg =
     (if RsdpAddr s = 0 \<or> rd64 (memory s) (RsdpAddr s) \<noteq> RSDP_SIGNATURE then Some 0
      else
          (case (if xsdt_usable s
                 then xsdt_search (memory s) sg (xsdt_of s)
                        (xsdt_of s + rd32 (memory s) (xsdt_of s + 4)) 0
                 else Some 0) of
             None \<Rightarrow> None
           | Some tbl \<Rightarrow>
               if tbl \<noteq> 0 then Some tbl
               else if rsdt_usable s
                 then rsdt_search (memory s) sg (rsdt_of s)
                        (rsdt_of s + rd32 (memory s) (rsdt_of s + 4)) 0
               else Some 0))"
  by (auto simp: find_acpi_table_def Let_def xsdt_usable_def xsdt_of_def rsdt_usable_def
      rsdt_of_def split: option.splits)

text \<open>Inside the address space the two loops return, with the lookup over the entries walked.\<close>

lemma find_acpi_table_walk:
  assumes "xsdt_usable s \<longrightarrow> table_fits (xsdt_of s) (rd32 (memory s) (xsdt_of s + 4))"
    and "rsdt_usable s \<longrightarrow> table_fits (rsdt_of s) (rd32 (memory s) (rsdt_of s + 4))"
  shows "find_acpi_table s sg = Some (acpi_walk s sg)"
proof -
  have x: "xsdt_search (memory s) sg (xsdt_of s) (xsdt_of s + rd32 (memory s) (xsdt_of s + 4)) 0 =
       Some (case find (xsdt_match (memory s) sg) (xsdt_walked (memory s) (xsdt_of s)) of
               Some ent \<Rightarrow> ucast ent | None \<Rightarrow> 0)" if "xsdt_usable s"
    using assms(1) that by (simp add: xsdt_search_entries)
  have r: "rsdt_search (memory s) sg (rsdt_of s) (rsdt_of s + rd32 (memory s) (rsdt_of s + 4)) 0 =
       Some (case find (rsdt_match (memory s) sg) (rsdt_walked (memory s) (rsdt_of s)) of
               Some ent \<Rightarrow> ent | None \<Rightarrow> 0)" if "rsdt_usable s"
    using assms(2) that by (simp add: rsdt_search_entries)
  show ?thesis
    unfolding find_acpi_table_unfold acpi_walk_def lookup_in_def
    using x r find_xsdt_match_nz [of "memory s" sg "xsdt_walked (memory s) (xsdt_of s)"]
    by (auto split: option.splits)
qed







text \<open>
  It fails as well for a declared length that ends inside an entry. The XSDT declares 53
  bytes, two entries and one byte: the lookup of the specification takes the two entries,
  neither of which matches, and the RSDT has no \<open>FACP\<close> entry. \<open>find_acpi_table\<close> walks
  entry 2 as well and returns the table it points to.
\<close>

lemma find_acpi_table_cut_entry:
  "xsdt_usable (ex_acpi_len [53, 0, 0, 0])
   \<and> rd32 (memory (ex_acpi_len [53, 0, 0, 0])) (xsdt_of (ex_acpi_len [53, 0, 0, 0]) + 4) = 53
   \<and> acpi_lookup (ex_acpi_len [53, 0, 0, 0]) 0x50434146 = 0
   \<and> find_acpi_table (ex_acpi_len [53, 0, 0, 0]) 0x50434146 = Some 0x10C0"
proof -
  let ?s = "ex_acpi_len [53, 0, 0, 0]"
  have a: "xsdt_usable ?s" "xsdt_of ?s = 0x1040" "rd32 (memory ?s) 0x1044 = 53"
    "rsdt_of ?s = 0x1080" "rd32 (memory ?s) 0x1084 = 44"
    "acpi_lookup ?s 0x50434146 = 0" "acpi_walk ?s 0x50434146 = 0x10C0"
    by code_simp+
  have f: "table_fits 0x1040 53" "table_fits 0x1080 44"
    by (simp_all add: table_fits_def)
  from find_acpi_table_walk [of ?s "0x50434146"]
  have "find_acpi_table ?s 0x50434146 = Some 0x10C0" by (simp add: a f)
  with a show ?thesis by simp
qed

subsection \<open>UUID display\<close>








subsection \<open>Memory\<close>

lemma unat_sub_succ:
  assumes "Suc n \<le> unat ((a :: u32) - d)"
  shows "unat (a - (d + 1)) = unat (a - d) - 1"
proof -
  have eq: "a - (d + 1) = (a - d) - 1" by (simp add: algebra_simps)
  have "unat ((a - d) - 1) = unat (a - d) - 1" using assms by (intro unat_pred1) simp
  then show ?thesis unfolding eq .
qed

lemma memcpy_outside:
  "\<not> unat (a - d) < n \<Longrightarrow> memcpy m d s n a = m a"
proof (induction n arbitrary: m d s)
  case 0
  then show ?case by simp
next
  case (Suc n)
  then have ge: "Suc n \<le> unat (a - d)" by simp
  then have ne: "a \<noteq> d" by auto
  have "\<not> unat (a - (d + 1)) < n" using unat_sub_succ [OF ge] ge by simp
  then have "memcpy (m(d := m s)) (d + 1) (s + 1) n a = (m(d := m s)) a" by (rule Suc.IH)
  then show ?case using ne by simp
qed


lemma off_succ: "(d :: u32) + 1 + of_nat i = d + of_nat (Suc i)"
  by simp

lemma unat_off: "i < 2 ^ 32 \<Longrightarrow> unat ((d :: u32) + of_nat i - d) = i"
  by (simp add: unat_of_nat take_bit_nat_eq_self)

lemma unat_m1: "unat (- 1 :: u32) = 2 ^ 32 - 1"
  by (simp add: unsigned_minus_1_eq_mask mask_eq_exp_minus_1)


lemma memcpy_inside:
  assumes "n \<le> 2 ^ 32"
    and "\<forall>j < n. \<not> unat (s + of_nat j - d) < n"
    and "i < n"
  shows "memcpy m d s n (d + of_nat i) = m (s + of_nat i)"
  using assms
proof (induction n arbitrary: m d s i)
  case 0
  then show ?case by simp
next
  case (Suc n)
  have dis: "\<forall>j < n. \<not> unat (s + 1 + of_nat j - (d + 1)) < n"
  proof (intro allI impI)
    fix j assume j: "j < n"
    then have "j < Suc n" by simp
    with Suc.prems(2) have "\<not> unat (s + of_nat j - d) < Suc n" by blast
    then have "\<not> unat (s + of_nat j - d) < n" by simp
    moreover have "s + 1 + of_nat j - (d + 1) = s + of_nat j - d"
      by simp
    ultimately show "\<not> unat (s + 1 + of_nat j - (d + 1)) < n"
      by (simp only: not_False_eq_True)
  qed
  have src: "s + of_nat j \<noteq> d" if "j < Suc n" for j
  proof
    assume "s + of_nat j = d"
    then have "unat (s + of_nat j - d) = 0" by simp
    with Suc.prems(2) that show False by auto
  qed
  show ?case
  proof (cases i)
    case 0
    have "\<not> unat (d - (d + 1)) < n" using Suc.prems(1) by (simp add: unat_m1)
    then have "memcpy (m(d := m s)) (d + 1) (s + 1) n d = (m(d := m s)) d"
      by (rule memcpy_outside)
    then show ?thesis using 0 by simp
  next
    case (Suc k)
    have "memcpy (m(d := m s)) (d + 1) (s + 1) n (d + 1 + of_nat k) = (m(d := m s)) (s + 1 + of_nat k)"
      using Suc.prems Suc dis by (intro Suc.IH) simp_all
    moreover have "s + 1 + of_nat k \<noteq> d"
      using src [of "Suc k"] Suc Suc.prems(3) by (simp add: add.assoc)
    ultimately show ?thesis using Suc by (simp add: off_succ del: of_nat_Suc)
  qed
qed

lemma read_bytes_nth:
  "i < n \<Longrightarrow> read_bytes m a n ! i = m (a + of_nat i)"
proof (induction n arbitrary: a i)
  case 0
  then show ?case by simp
next
  case (Suc n)
  then show ?case by (cases i) (simp_all add: off_succ del: of_nat_Suc)
qed

lemma length_read_bytes [simp]: "length (read_bytes m a n) = n"
  by (induction n arbitrary: a) simp_all

lemma read_bytes_eqI:
  "length xs = n \<Longrightarrow> (\<And>i. i < n \<Longrightarrow> m (a + of_nat i) = xs ! i) \<Longrightarrow> read_bytes m a n = xs"
  by (rule nth_equalityI) (simp_all add: read_bytes_nth)

lemma sum_bytes_cong:
  "(\<And>i. i < n \<Longrightarrow> m (p + of_nat i) = m' (p + of_nat i)) \<Longrightarrow> sum_bytes m p n = sum_bytes m' p n"
proof (induction n arbitrary: p)
  case 0
  then show ?case by simp
next
  case (Suc n)
  have "sum_bytes m (p + 1) n = sum_bytes m' (p + 1) n"
  proof (rule Suc.IH)
    fix i assume "i < n"
    then show "m (p + 1 + of_nat i) = m' (p + 1 + of_nat i)"
      using Suc.prems [of "Suc i"] by (simp add: off_succ del: of_nat_Suc)
  qed
  moreover have "m p = m' p" using Suc.prems [of 0] by simp
  ultimately show ?case by simp
qed

lemma rd32_wr32: "rd32 (wr32 m a v) a = v"
proof -
  have d: "a + 1 \<noteq> a" "a + 2 \<noteq> a" "a + 3 \<noteq> a" "a + 2 \<noteq> a + 1" "a + 3 \<noteq> a + 1" "a + 3 \<noteq> a + 2"
    by simp_all
  show ?thesis
    unfolding rd32_def wr32_def
    apply (simp add: d)
    apply (rule bit_word_eqI)
    apply (auto simp: bit_simps)
    subgoal for n by (cases "n < 24") (simp_all add: not_less)
    done
qed


lemma in_region_iff:
  "n \<le> 2 ^ 32 \<Longrightarrow> (unat ((a :: u32) - d) < n) = (\<exists>x < n. a = d + of_nat x)"
proof
  assume "unat (a - d) < n"
  moreover have "a = d + of_nat (unat (a - d))" by simp
  ultimately show "\<exists>x < n. a = d + of_nat x" by blast
next
  assume n: "n \<le> 2 ^ 32" and "\<exists>x < n. a = d + of_nat x"
  then obtain x where "x < n" "a = d + of_nat x" by blast
  then show "unat (a - d) < n" using n by (simp add: unat_of_nat take_bit_nat_eq_self)
qed

lemma off_ne: "0 < i \<Longrightarrow> i < 2 ^ 32 \<Longrightarrow> (p :: u32) + of_nat i \<noteq> p"
proof
  assume i: "0 < i" "i < 2 ^ 32" and "p + of_nat i = p"
  then have "(of_nat i :: u32) = 0" by simp
  then have "unat (of_nat i :: u32) = 0" by simp
  with i show False by (simp add: unat_of_nat take_bit_nat_eq_self)
qed

lemma sum_bytes_upd0:
  assumes "n < 2 ^ 32"
  shows "sum_bytes (m(p := v)) (p + 1) n = sum_bytes m (p + 1) n"
proof (rule sum_bytes_cong)
  fix i assume "i < n"
  then have "p + of_nat (Suc i) \<noteq> p" using assms by (intro off_ne) simp_all
  then show "(m(p := v)) (p + 1 + of_nat i) = m (p + 1 + of_nat i)"
    by (simp add: add.assoc)
qed

lemma sum_bytes_upd:
  "n \<le> 2 ^ 32 \<Longrightarrow> k < n \<Longrightarrow>
     sum_bytes (m(p + of_nat k := v)) p n = sum_bytes m p n - m (p + of_nat k) + v"
proof (induction n arbitrary: p k)
  case 0
  then show ?case by simp
next
  case (Suc n)
  show ?case
  proof (cases k)
    case 0
    have "sum_bytes (m(p := v)) p (Suc n) = (m(p := v)) p + sum_bytes (m(p := v)) (p + 1) n"
      by (simp only: sum_bytes.simps)
    also have "\<dots> = v + sum_bytes (m(p := v)) (p + 1) n" by (simp only: fun_upd_same)
    also have "\<dots> = v + sum_bytes m (p + 1) n"
      using Suc.prems(1) by (simp only: sum_bytes_upd0) 
    finally have c: "sum_bytes (m(p := v)) p (Suc n) = v + sum_bytes m (p + 1) n" .
    have r: "sum_bytes m p (Suc n) = m p + sum_bytes m (p + 1) n" by simp
    have z: "p + of_nat 0 = p" by simp
    show ?thesis unfolding 0 z c r by (simp only: algebra_simps)
  next
    case (Suc j)
    have ne: "p + of_nat (Suc j) \<noteq> p"
      using Suc Suc.prems by (intro off_ne) simp_all
    have ih: "sum_bytes (m(p + 1 + of_nat j := v)) (p + 1) n = sum_bytes m (p + 1) n - m (p + 1 + of_nat j) + v"
      using Suc.prems Suc by (intro Suc.IH) simp_all
    have "sum_bytes (m(p + of_nat (Suc j) := v)) p (Suc n)
        = (m(p + of_nat (Suc j) := v)) p + sum_bytes (m(p + of_nat (Suc j) := v)) (p + 1) n"
      by (simp only: sum_bytes.simps)
    also have "\<dots> = m p + (sum_bytes m (p + 1) n - m (p + of_nat (Suc j)) + v)"
      using ne ih by (simp only: off_succ [symmetric] fun_upd_apply) (simp add: add.assoc)
    finally have c: "sum_bytes (m(p + of_nat (Suc j) := v)) p (Suc n)
        = m p + (sum_bytes m (p + 1) n - m (p + of_nat (Suc j)) + v)" .
    have r: "sum_bytes m p (Suc n) = m p + sum_bytes m (p + 1) n" by simp
    show ?thesis unfolding Suc c r by (simp only: algebra_simps)
  qed
qed

subsection \<open>MP table relocation\<close>

lemma of_nat_u32_inj:
  assumes "x < 2 ^ 32" "y < 2 ^ 32" "(of_nat x :: u32) = of_nat y"
  shows "x = y"
proof -
  from assms(3) have "unat (of_nat x :: u32) = unat (of_nat y :: u32)" by simp
  with assms(1,2) show ?thesis by (simp add: unat_of_nat take_bit_nat_eq_self)
qed

lemma off_inj:
  "x < 2 ^ 32 \<Longrightarrow> y < 2 ^ 32 \<Longrightarrow> (p :: u32) + of_nat x = p + of_nat y \<Longrightarrow> x = y"
  using of_nat_u32_inj [of x y] by simp

lemma rd32_eq:
  "m a = m' a \<Longrightarrow> m (a + 1) = m' (a + 1) \<Longrightarrow> m (a + 2) = m' (a + 2) \<Longrightarrow> m (a + 3) = m' (a + 3)
     \<Longrightarrow> rd32 m a = rd32 m' a"
  by (simp add: rd32_def)

lemma wr32_other:
  "a \<noteq> p \<Longrightarrow> a \<noteq> p + 1 \<Longrightarrow> a \<noteq> p + 2 \<Longrightarrow> a \<noteq> p + 3 \<Longrightarrow> wr32 m p v a = m a"
  by (simp add: wr32_def)

text \<open>
  For a floating pointer that passes the tests of \<open>copy_mptable\<close>, has a length of at
  least one paragraph and fits the maximum, and a block from the pool that shares no
  byte with the floating pointer or its configuration table: the copy's physical
  address is \<open>newpos + length * 16\<close>, the checksum of its 16-byte header is 0, and the
  bytes of the configuration table follow at that offset.
\<close>

lemma copy_mptable_relocates:
  fixes s :: "'h bios"
  assumes sg: "rd32 (memory s) pos = MPTABLE_SIGNATURE"
    and cf: "rd32 (memory s) (pos + 4) = cfg" "cfg \<noteq> 0"
    and ck: "checksum (memory s) pos 16 = 0"
    and b: "memory s (pos + 8) = b" "b \<noteq> 0"
    and mpc: "rd16 (memory s) (cfg + 4) = mpc"
    and fit: "\<not> ucast b * 16 + ucast mpc > max_fseg"
    and al: "malloc_fseg A (heap s) (ucast b * 16 + ucast mpc) = (newpos, h)" "newpos \<noteq> 0"
    and fresh: "\<forall>x < 16 * unat b + unat mpc.
                  (\<forall>i < 16 * unat b. newpos + of_nat x \<noteq> pos + of_nat i)
                \<and> (\<forall>j < unat mpc. newpos + of_nat x \<noteq> cfg + of_nat j)"
  shows "rd32 (memory (copy_mptable A max_fseg s pos)) (newpos + 4) = newpos + ucast b * 16
       \<and> checksum (memory (copy_mptable A max_fseg s pos)) newpos 16 = 0
       \<and> read_bytes (memory (copy_mptable A max_fseg s pos)) (newpos + ucast b * 16) (unat mpc)
           = read_bytes (memory s) cfg (unat mpc)
       \<and> heap (copy_mptable A max_fseg s pos) = h"
proof -
  define m where "m = memory s"
  define L where "L = 16 * unat b"
  define Mn where "Mn = unat mpc"
  define len :: u32 where "len = ucast b * 16"
  define m1 where "m1 = memcpy m newpos pos L"
  define m2 where "m2 = wr32 m1 (newpos + 4) (newpos + len)"
  define m3 where "m3 = m2(newpos + 10 := m2 (newpos + 10) - checksum m2 newpos 16)"
  define m4 where "m4 = memcpy m3 (newpos + len) (rd32 m3 (pos + 4)) Mn"
  have bl: "unat b < 256" "0 < unat b"
    using unat_u8_lt [of b] b(2) by (simp_all add: unat_gt_0)
  have Lb: "16 \<le> L" "L \<le> 4080" using bl by (simp_all add: L_def)
  have Mb: "Mn < 65536" using unsigned_less [of mpc, where ?'a = nat] by (simp add: Mn_def)
  have uL: "unat len = L"
    using bl by (simp add: len_def L_def unat_word_ariths unat_u8_u32)
  have lenL: "len = of_nat L" using uL [symmetric] by simp
  have uM: "(ucast mpc :: u32) = of_nat Mn" by (simp add: Mn_def)
  have st: "copy_mptable A max_fseg s pos = s\<lparr>memory := m4, heap := h\<rparr>"
    using sg cf ck b mpc fit al
    by (simp add: copy_mptable_def Let_def m4_def m3_def m2_def m1_def m_def len_def L_def Mn_def uL [unfolded len_def L_def])
  have A: "m3 a = m a" if "\<forall>x < L. a \<noteq> newpos + of_nat x" for a
  proof -
    have "\<not> unat (a - newpos) < L"
      using that Lb by (subst in_region_iff) auto
    then have "m1 a = m a" unfolding m1_def by (rule memcpy_outside)
    moreover have "a \<noteq> newpos + 4" "a \<noteq> newpos + 5" "a \<noteq> newpos + 6" "a \<noteq> newpos + 7"
      "a \<noteq> newpos + 10"
      using that [rule_format, of 4] that [rule_format, of 5] that [rule_format, of 6]
        that [rule_format, of 7] that [rule_format, of 10] Lb by simp_all
    ultimately show ?thesis by (simp add: m3_def m2_def wr32_def add.assoc)
  qed
  have Bp: "m3 (pos + of_nat i) = m (pos + of_nat i)" if "i < L" for i
  proof (rule A, intro allI impI)
    fix x assume "x < L"
    then have "x < 16 * unat b + unat mpc" by (simp add: L_def)
    with fresh have "\<forall>i < 16 * unat b. newpos + of_nat x \<noteq> pos + of_nat i" by blast
    with that show "pos + of_nat i \<noteq> newpos + of_nat x" by (auto simp: L_def)
  qed
  have Bc: "m3 (cfg + of_nat j) = m (cfg + of_nat j)" if "j < Mn" for j
  proof (rule A, intro allI impI)
    fix x assume "x < L"
    then have "x < 16 * unat b + unat mpc" by (simp add: L_def)
    with fresh have "\<forall>j < unat mpc. newpos + of_nat x \<noteq> cfg + of_nat j" by blast
    with that show "cfg + of_nat j \<noteq> newpos + of_nat x" by (auto simp: Mn_def)
  qed
  have C: "rd32 m3 (pos + 4) = cfg"
  proof -
    have "rd32 m3 (pos + 4) = rd32 m (pos + 4)"
      using Bp [of 4] Bp [of 5] Bp [of 6] Bp [of 7] Lb by (intro rd32_eq) (simp_all add: add.assoc)
    then show ?thesis using cf by (simp add: m_def)
  qed
  have D: "m4 (newpos + of_nat k) = m3 (newpos + of_nat k)" if "k < 16" for k
  proof -
    have "\<not> (\<exists>x < Mn. newpos + of_nat k = newpos + len + of_nat x)"
    proof
      assume "\<exists>x < Mn. newpos + of_nat k = newpos + len + of_nat x"
      then obtain x where x: "x < Mn" "newpos + of_nat k = newpos + len + of_nat x" by blast
      then have "newpos + of_nat k = newpos + of_nat (L + x)" by (simp add: lenL)
      then have "k = L + x" using that Lb Mb x(1) by (intro off_inj [of k "L + x" newpos]) simp_all
      then show False using that Lb by simp
    qed
    then have "\<not> unat (newpos + of_nat k - (newpos + len)) < Mn"
      using Mb by (subst in_region_iff) simp_all
    then show ?thesis unfolding m4_def by (rule memcpy_outside)
  qed
  have i: "rd32 m4 (newpos + 4) = newpos + len"
  proof -
    have "rd32 m4 (newpos + 4) = rd32 m3 (newpos + 4)"
      using D [of 4] D [of 5] D [of 6] D [of 7] by (intro rd32_eq) (simp_all add: add.assoc)
    also have "\<dots> = rd32 m2 (newpos + 4)"
      by (intro rd32_eq) (simp_all add: m3_def add.assoc)
    also have "\<dots> = newpos + len" by (simp add: m2_def rd32_wr32)
    finally show ?thesis .
  qed
  have ii: "checksum m4 newpos 16 = 0"
  proof -
    have "sum_bytes m4 newpos 16 = sum_bytes m3 newpos 16"
      using D by (intro sum_bytes_cong) simp
    also have "m3 = m2(newpos + of_nat 10 := m2 (newpos + 10) - sum_bytes m2 newpos 16)"
      by (simp add: m3_def checksum_def)
    also have "sum_bytes \<dots> newpos 16
        = sum_bytes m2 newpos 16 - m2 (newpos + of_nat 10) + (m2 (newpos + 10) - sum_bytes m2 newpos 16)"
      by (rule sum_bytes_upd) simp_all
    also have "\<dots> = 0" by simp
    finally show ?thesis by (simp add: checksum_def)
  qed
  have iii: "read_bytes m4 (newpos + len) Mn = read_bytes m cfg Mn"
  proof (rule read_bytes_eqI)
    show "length (read_bytes m cfg Mn) = Mn" by simp
  next
    fix j assume j: "j < Mn"
    have dis: "\<forall>j < Mn. \<not> unat (cfg + of_nat j - (newpos + len)) < Mn"
    proof (intro allI impI)
      fix j assume j: "j < Mn"
      have "\<not> (\<exists>x < Mn. cfg + of_nat j = newpos + len + of_nat x)"
      proof
        assume "\<exists>x < Mn. cfg + of_nat j = newpos + len + of_nat x"
        then obtain x where x: "x < Mn" "cfg + of_nat j = newpos + len + of_nat x" by blast
        then have "newpos + of_nat (L + x) = cfg + of_nat j" by (simp add: lenL)
        moreover have "L + x < 16 * unat b + unat mpc" using x(1) by (simp add: L_def Mn_def)
        then have "\<forall>j < unat mpc. newpos + of_nat (L + x) \<noteq> cfg + of_nat j"
          using fresh by blast
        ultimately show False using j by (auto simp: Mn_def)
      qed
      then show "\<not> unat (cfg + of_nat j - (newpos + len)) < Mn"
        using Mb by (subst in_region_iff) simp_all
    qed
    have "m4 (newpos + len + of_nat j) = m3 (cfg + of_nat j)"
      unfolding m4_def C using Mb dis j by (intro memcpy_inside) simp_all
    also have "\<dots> = m (cfg + of_nat j)" using j by (rule Bc)
    finally show "m4 (newpos + len + of_nat j) = read_bytes m cfg Mn ! j"
      using j by (simp add: read_bytes_nth)
  qed
  show ?thesis
    using i ii iii by (simp add: st len_def Mn_def m_def)
qed

text \<open>A candidate beyond the maximum size is dropped: the state is unchanged.\<close>

lemma copy_mptable_oversize:
  "ucast (memory s (pos + 8)) * 16 + ucast (rd16 (memory s) (rd32 (memory s) (pos + 4) + 4))
      > max_fseg \<Longrightarrow> copy_mptable A max_fseg s pos = s"
  by (simp add: copy_mptable_def Let_def)

text \<open>
  C5 fails for a floating pointer whose length byte is 0, which \<open>copy_mptable\<close> does
  not reject: the block is allocated for the 8 bytes of the configuration table alone,
  no header is copied, the physical address and the checksum are patched into the
  block, and the configuration table is then copied over them. The copy's physical
  address is not \<open>newpos + 0 * 16\<close>, the sum of its first 16 bytes is not 0, and the
  checksum byte at offset 10 was written behind the block.
\<close>

theorem copy_mptable_zero_length:
  "heap (copy_mptable bump_pools 0x8000 ex_mptable0 0xF0000) = 0xE0008
   \<and> rd32 (memory (copy_mptable bump_pools 0x8000 ex_mptable0 0xF0000)) (0xE0000 + 4) = 0x00040008
   \<and> rd32 (memory (copy_mptable bump_pools 0x8000 ex_mptable0 0xF0000)) (0xE0000 + 4)
        \<noteq> 0xE0000 + ucast (memory ex_mptable0 (0xF0000 + 8)) * 16
   \<and> checksum (memory (copy_mptable bump_pools 0x8000 ex_mptable0 0xF0000)) 0xE0000 16 = 0x2E
   \<and> memory (copy_mptable bump_pools 0x8000 ex_mptable0 0xF0000) 0xE000A = 0xF2
   \<and> memory ex_mptable0 0xE000A = 0"
  by code_simp

subsection \<open>The type 0 record\<close>







lemma off_eq: "i < 2 ^ 32 \<Longrightarrow> k < 2 ^ 32 \<Longrightarrow> ((p :: u32) + of_nat i = p + of_nat k) = (i = k)"
  using off_inj [of i k p] by auto


lemma upd_off:
  "i < 2 ^ 32 \<Longrightarrow> k < 2 ^ 32 \<Longrightarrow> (m(off p k := v)) (off p i) = (if i = k then v else m (off p i))"
  using off_eq [of i k p] by (simp add: off_def)










text \<open>
  The macro sets a string index only for a string that is not empty; for an empty one the
  index is 0, nothing is copied and \<open>end\<close> stays.
\<close>

lemma set_str_field_index:
  "set_str_field_or_skip field v (m, e, i) =
     (if cstr v = [] then (m(field := 0), e, i)
      else ((write_bytes m e (cstr v @ [0]))(field := i + 1),
            e + of_nat (length (cstr v) + 1), i + 1))"
  by (simp add: set_str_field_or_skip_def strlen_def del: write_bytes.simps of_nat_add)











subsection \<open>The SMBIOS table builder\<close>

text \<open>The search for a type 0 structure returns: the iterator moves forward.\<close>

lemma next_advances:
  assumes tab: "unat start + unat len + 256 \<le> 2 ^ 32"
    and prv: "prev \<noteq> 0" "unat prev \<le> unat start + unat len"
    and r: "smbios_next m start len prev = r" "r \<noteq> 0"
  shows "unat prev < unat r"
proof -
  let ?e = "start + len"
  let ?p0 = "prev + (ucast (m (prev + 1)) + 2)"
  from tab have e: "unat ?e = unat start + unat len"
    by (simp add: unat_word_ariths)
  have p4: "unat (prev + 4) = unat prev + 4"
    using unat_add_small [of prev 4] prv(2) tab by simp
  from r prv(1) have c: "\<not> prev + 4 > ?e" and rr: "r = fst (smbios_scan m ?e ?p0)"
    unfolding smbios_next_def smbios_next_tr_def Let_def
    by (auto simp: check_fst split: if_splits prod.splits)
  from c have b: "unat prev + 4 \<le> unat start + unat len"
    by (simp add: word_less_nat_alt p4 e not_less)
  have "unat (ucast (m (prev + 1)) + 2 :: u32) = unat (m (prev + 1)) + 2"
    using unat_u8_lt [of "m (prev + 1)"] by (simp add: unat_word_ariths unat_u8_u32)
  then have "unat ?p0 = unat prev + unat (m (prev + 1)) + 2"
    using b tab unat_u8_lt [of "m (prev + 1)"] by (simp add: unat_word_ariths)
  moreover have "?p0 \<le> fst (smbios_scan m ?e ?p0)" using scan_cursor [of ?p0 m ?e] by simp
  ultimately show ?thesis by (simp add: rr word_le_nat_alt)
qed

lemma find_type0_returns_from:
  assumes tab: "unat start + unat len + 256 \<le> 2 ^ 32"
    and t: "t = 0 \<or> unat t < unat start + unat len"
  shows "\<exists>b. find_type0 m start len t = Some b"
  using t
proof (induction "unat start + unat len - unat t" arbitrary: t rule: less_induct)
  case less
  show ?case
  proof (cases "t = 0 \<or> m t = 0")
    case True
    then show ?thesis by (subst find_type0.simps) auto
  next
    case False
    with less.prems have lt: "unat t < unat start + unat len" by simp
    define r where "r = smbios_next m start len t"
    have st: "find_type0 m start len t = find_type0 m start len r"
      using False by (subst find_type0.simps) (simp add: r_def)
    show ?thesis
    proof (cases "r = 0")
      case True
      then show ?thesis unfolding st by (subst find_type0.simps) auto
    next
      case nz: False
      have "unat t < unat r"
        using next_advances [OF tab _ _ r_def [symmetric] nz, of ] False lt by simp
      moreover have "unat r < unat start + unat len"
        using next_result_bounded [OF tab r_def [symmetric] nz] by simp
      ultimately show ?thesis unfolding st by (intro less.hyps) simp_all
    qed
  qed
qed

lemma smbios_build_tables_returns:
  fixes s :: "'h bios"
  assumes "unat (fst (malloc_tmphigh A (heap s) (rf_size f))) + unat (rf_size f) + 256 \<le> 2 ^ 32"
  shows "\<exists>r. smbios_build_tables A version max_fseg s f out = Some r"
proof -
  obtain q h1 where tq: "malloc_tmphigh A (heap s) (rf_size f) = (q, h1)" by (cases "malloc_tmphigh A (heap s) (rf_size f)")
  let ?m = "romfile_copy (memory s) f q (rf_size f)"
  define t where "t = smbios_next ?m q (rf_size f) 0"
  from assms tq have tab: "unat q + unat (rf_size f) + 256 \<le> 2 ^ 32" by simp
  have "t = 0 \<or> unat t < unat q + unat (rf_size f)"
    using next_result_bounded [OF tab t_def [symmetric]] by auto
  from find_type0_returns_from [OF tab this] obtain b where
    "find_type0 ?m q (rf_size f) (smbios_next ?m q (rf_size f) 0) = Some b"
    unfolding t_def by blast
  then show ?thesis
    using tq unfolding smbios_build_tables_def Let_def
    by (auto split: prod.splits)
qed


lemma ucast_32_64_32 [simp]: "(ucast (ucast (x :: u32) :: u64) :: u32) = x"
proof -
  have "unat (ucast (ucast x :: u64) :: u32) = unat x"
    using unsigned_less [of x, where ?'a = nat]
    by (simp add: unsigned_ucast_eq unsigned_take_bit_eq take_bit_nat_eq_self)
  then show ?thesis by (simp add: word_unat_eq_iff)
qed














end
